theory Spec2Isabelle
  imports Complex_Main "HOL-Library.AList" "HOL-Library.Sublist"
begin

section \<open>JavaScript values used by the pipeline\<close>

text \<open>
  Numbers. A JavaScript number is \<open>NaN\<close>, an infinity or a finite value. Finite values are
  modelled as reals: the operations below follow IEEE 754 on \<open>NaN\<close> and the infinities, and
  are exact on finite values (rounding, overflow and the sign of zero are not modelled).
  Every statement about scores below compares two terms built from the same operations
  in the same order, so it does not depend on how a finite result is rounded.
\<close>

datatype number = NaN | Fin real | PosInf | NegInf

fun jmul :: "number \<Rightarrow> number \<Rightarrow> number" where
  "jmul NaN y = NaN"
| "jmul x NaN = NaN"
| "jmul (Fin a) (Fin b) = Fin (a * b)"
| "jmul (Fin a) PosInf = (if a = 0 then NaN else if 0 < a then PosInf else NegInf)"
| "jmul (Fin a) NegInf = (if a = 0 then NaN else if 0 < a then NegInf else PosInf)"
| "jmul PosInf (Fin b) = (if b = 0 then NaN else if 0 < b then PosInf else NegInf)"
| "jmul NegInf (Fin b) = (if b = 0 then NaN else if 0 < b then NegInf else PosInf)"
| "jmul PosInf PosInf = PosInf"
| "jmul PosInf NegInf = NegInf"
| "jmul NegInf PosInf = NegInf"
| "jmul NegInf NegInf = PosInf"

fun jadd :: "number \<Rightarrow> number \<Rightarrow> number" where
  "jadd NaN y = NaN"
| "jadd x NaN = NaN"
| "jadd (Fin a) (Fin b) = Fin (a + b)"
| "jadd PosInf NegInf = NaN"
| "jadd NegInf PosInf = NaN"
| "jadd PosInf y = PosInf"
| "jadd x PosInf = PosInf"
| "jadd NegInf y = NegInf"
| "jadd x NegInf = NegInf"

text \<open>\<open>jlt x y\<close> is the comparison \<open>x < y\<close>: false as soon as one side is \<open>NaN\<close>.\<close>

fun jlt :: "number \<Rightarrow> number \<Rightarrow> bool" where
  "jlt NaN y = False"
| "jlt x NaN = False"
| "jlt (Fin a) (Fin b) = (a < b)"
| "jlt x NegInf = False"
| "jlt NegInf y = True"
| "jlt PosInf y = False"
| "jlt x PosInf = True"

definition isNaN :: "number \<Rightarrow> bool" where
  "isNaN x = (x = NaN)"

text \<open>
  Strings are lists of code units below 256. The white space that \<open>trim\<close> and
  \<open>parseFloat\<close> strip is, in that range: tab, line feed, vertical tab, form feed,
  carriage return, space and the no-break space.
\<close>

definition is_ws :: "char \<Rightarrow> bool" where
  "is_ws c = (c \<in> set [CHR 0x09, CHR 0x0A, CHR 0x0B, CHR 0x0C, CHR 0x0D, CHR 0x20, CHR 0xA0])"

definition trim :: "string \<Rightarrow> string" where
  "trim s = rev (dropWhile is_ws (rev (dropWhile is_ws s)))"

definition is_digit :: "char \<Rightarrow> bool" where
  "is_digit c = (48 \<le> (of_char c :: nat) \<and> (of_char c :: nat) \<le> 57)"

definition digit_val :: "char \<Rightarrow> nat" where
  "digit_val c = of_char c - 48"

definition digits_val :: "string \<Rightarrow> nat" where
  "digits_val ds = foldl (\<lambda>a c. 10 * a + digit_val c) 0 ds"

text \<open>An optional sign in front of a literal: whether it is \<open>-\<close>, and the rest.\<close>

fun take_sign :: "string \<Rightarrow> bool \<times> string" where
  "take_sign [] = (False, [])"
| "take_sign (c # cs) =
     (if c = CHR ''-'' then (True, cs) else if c = CHR ''+'' then (False, cs) else (False, c # cs))"

text \<open>
  The exponent part \<open>e\<close>/\<open>E\<close>, optional sign, digits. It is read only when at least one
  digit follows; otherwise the literal ends before the \<open>e\<close>.
\<close>

fun exponent_part :: "string \<Rightarrow> int" where
  "exponent_part [] = 0"
| "exponent_part (c # cs) =
     (if c = CHR ''e'' \<or> c = CHR ''E'' then
        (let (neg, r) = take_sign cs; ed = takeWhile is_digit r in
         if ed = [] then 0
         else if neg then - int (digits_val ed) else int (digits_val ed))
      else 0)"

definition scale10 :: "real \<Rightarrow> int \<Rightarrow> real" where
  "scale10 x e = (if 0 \<le> e then x * 10 ^ nat e else x / 10 ^ nat (- e))"

text \<open>
  \<open>parseFloat\<close> on a string: skip leading white space, then read the longest prefix that
  is a decimal literal (\<open>Infinity\<close>, or digits with an optional fraction and exponent,
  with an optional sign); \<open>NaN\<close> when there is none.
\<close>

definition parseFloat_string :: "string \<Rightarrow> number" where
  "parseFloat_string s =
     (let (neg, s1) = take_sign (dropWhile is_ws s) in
      if take 8 s1 = ''Infinity'' then (if neg then NegInf else PosInf)
      else
        let ip = takeWhile is_digit s1;
            r1 = dropWhile is_digit s1;
            fp = (case r1 of [] \<Rightarrow> [] | c # r \<Rightarrow> if c = CHR ''.'' then takeWhile is_digit r else []);
            r2 = (case r1 of [] \<Rightarrow> [] | c # r \<Rightarrow> if c = CHR ''.'' then dropWhile is_digit r else r1)
        in
        if ip = [] \<and> fp = [] then NaN
        else
          let m = scale10 (real (digits_val (ip @ fp))) (exponent_part r2 - int (length fp))
          in Fin (if neg then - m else m))"

text \<open>
  A spreadsheet cell as the ingestor hands it over: absent (\<open>undefined\<close>), \<open>null\<close>, a
  boolean, a number or a string. \<open>parseFloat\<close> first converts its argument to a string;
  the strings of \<open>undefined\<close>, \<open>null\<close>, \<open>true\<close> and \<open>false\<close> start no literal, and the
  string of a number reads back as that number.
\<close>

datatype cell = Undefined | Null | Bool bool | Num number | Str string

fun parseFloat :: "cell \<Rightarrow> number" where
  "parseFloat (Num n) = n"
| "parseFloat (Str s) = parseFloat_string s"
| "parseFloat Undefined = NaN"
| "parseFloat Null = NaN"
| "parseFloat (Bool b) = NaN"

text \<open>Decimal rendering of a row number, as a template literal prints it.\<close>

fun show_nat :: "nat \<Rightarrow> string" where
  "show_nat n =
     (if n < 10 then [char_of (48 + n)]
      else show_nat (n div 10) @ [char_of (48 + n mod 10)])"

declare show_nat.simps [simp del]

text \<open>\<open>Array.prototype.join\<close> on strings.\<close>

fun join :: "string \<Rightarrow> string list \<Rightarrow> string" where
  "join sep [] = []"
| "join sep [x] = x"
| "join sep (x # y # ys) = x @ sep @ join sep (y # ys)"

section \<open>Rows, records and the validation report\<close>

text \<open>
  A row is an object: its own properties in insertion order. An element of the input
  array may also be \<open>null\<close> or \<open>undefined\<close>, which is \<open>None\<close> here. Reading a property
  that the object does not have gives \<open>undefined\<close>.
\<close>

type_synonym row = "(string \<times> cell) list"
type_synonym rawrow = "row option"

definition Object_keys :: "(string \<times> 'a) list \<Rightarrow> string list" where
  "Object_keys r = map fst r"

definition get :: "row \<Rightarrow> string \<Rightarrow> cell" where
  "get r k = (case map_of r k of None \<Rightarrow> Undefined | Some v \<Rightarrow> v)"

fun truthy :: "cell \<Rightarrow> bool" where
  "truthy Undefined = False"
| "truthy Null = False"
| "truthy (Bool b) = b"
| "truthy (Num n) = (n \<noteq> NaN \<and> n \<noteq> Fin 0)"
| "truthy (Str s) = (s \<noteq> [])"

fun typeof :: "cell \<Rightarrow> string" where
  "typeof Undefined = ''undefined''"
| "typeof Null = ''object''"
| "typeof (Bool b) = ''boolean''"
| "typeof (Num n) = ''number''"
| "typeof (Str s) = ''string''"

record ValidationResult =
  isValid :: bool
  errors :: "string list"
  warnings :: "string list"

text \<open>
  The \<open>country\<close> field of a record. The validator always stores a string. The name
  standardization reads an alias table that is a plain object, so for a name that every
  object inherits (\<open>constructor\<close>, \<open>toString\<close>, ...) it stores that inherited member, which
  is a function or, for \<open>__proto__\<close>, the prototype object: \<open>Inherited m\<close> is the member
  named \<open>m\<close>.
\<close>

datatype country_value = Text string | Inherited string

record CountryData =
  country :: country_value
  ai :: cell
  quantum :: cell
  semiconductors :: cell
  biotech :: cell
  space :: cell
  fintech :: cell
  totalScore :: number
  sectorScores :: "(string \<times> number) list"

record ProcessedData =
  data :: "CountryData list"
  validation :: ValidationResult

definition REQUIRED_COLUMNS :: "string list" where
  "REQUIRED_COLUMNS =
     [''Country'', ''AI'', ''Quantum'', ''Semiconductors'', ''Biotech'', ''Space'', ''Fintech'']"

definition COLUMN_MAPPINGS :: "(string \<times> string) list" where
  "COLUMN_MAPPINGS =
     [(''Country'', ''country''), (''AI'', ''ai''), (''Quantum'', ''quantum''),
      (''Semiconductors'', ''semiconductors''), (''Biotech'', ''biotech''),
      (''Space'', ''space''), (''Fintech'', ''fintech'')]"

definition SECTOR_WEIGHTS :: "(string \<times> number) list" where
  "SECTOR_WEIGHTS =
     [(''ai'', Fin 0.2), (''quantum'', Fin 0.1), (''semiconductors'', Fin 0.2),
      (''biotech'', Fin 0.2), (''space'', Fin 0.2), (''fintech'', Fin 0.1)]"

definition COUNTRY_NAME_MAPPINGS :: "(string \<times> string) list" where
  "COUNTRY_NAME_MAPPINGS =
     [(''USA'', ''United States of America''),
      (''US'', ''United States of America''),
      (''United States'', ''United States of America''),
      (''UK'', ''United Kingdom''),
      (''PRC'', ''China''),
      (''People's Republic of China'', ''China''),
      (''Korea'', ''South Korea''),
      (''Republic of Korea'', ''South Korea''),
      (''Korea, Republic of'', ''South Korea''),
      (''Korea, Dem. Rep.'', ''North Korea''),
      (''Democratic People's Republic of Korea'', ''North Korea''),
      (''DPRK'', ''North Korea''),
      (''Russian Federation'', ''Russia''),
      (''Czech Republic'', ''Czechia''),
      (''UAE'', ''United Arab Emirates'')]"

section \<open>validateAndProcessData\<close>

definition push_error :: "ValidationResult \<Rightarrow> string \<Rightarrow> ValidationResult" where
  "push_error v m = v\<lparr>errors := errors v @ [m]\<rparr>"

definition push_warning :: "ValidationResult \<Rightarrow> string \<Rightarrow> ValidationResult" where
  "push_warning v m = v\<lparr>warnings := warnings v @ [m]\<rparr>"

text \<open>
  The reduce over \<open>COLUMN_MAPPINGS\<close> that builds \<open>mappedRow\<close>: each internal name gets the
  cell of its spreadsheet column.
\<close>

definition map_columns :: "row \<Rightarrow> row" where
  "map_columns r =
     foldl (\<lambda>acc (excelCol, internalCol). AList.update internalCol (get r excelCol) acc)
       [] COLUMN_MAPPINGS"

text \<open>
  The country check \<open>!mappedRow.country || typeof mappedRow.country !== 'string'\<close>:
  \<open>None\<close> when it rejects the cell, the string otherwise.
\<close>

definition country_name :: "cell \<Rightarrow> string option" where
  "country_name c =
     (if \<not> truthy c \<or> typeof c \<noteq> ''string'' then None
      else case c of Str s \<Rightarrow> Some s | _ \<Rightarrow> None)"

text \<open>
  The state of the loop over the six sectors of one row: the shared validation report,
  the scores collected so far and the flag.
\<close>

record sector_loop =
  sl_validation :: ValidationResult
  sl_sectorScores :: "(string \<times> number) list"
  hasInvalidScore :: bool

definition check_sector :: "row \<Rightarrow> string \<Rightarrow> sector_loop \<Rightarrow> string \<times> number \<Rightarrow> sector_loop" where
  "check_sector mappedRow c st entry =
     (let sector = fst entry;
          val = parseFloat (get mappedRow sector)
      in
      if isNaN val then
        st\<lparr>sl_validation :=
             push_error (sl_validation st) (''Invalid '' @ sector @ '' value for '' @ c),
           hasInvalidScore := True\<rparr>
      else if jlt val (Fin 0) then
        st\<lparr>sl_validation :=
             push_error (sl_validation st) (''Negative '' @ sector @ '' value for '' @ c),
           hasInvalidScore := True\<rparr>
      else
        let st' = (if jlt (Fin 1) val
                   then st\<lparr>sl_validation :=
                           push_warning (sl_validation st) (sector @ '' value > 1 for '' @ c)\<rparr>
                   else st)
        in st'\<lparr>sl_sectorScores := AList.update sector val (sl_sectorScores st')\<rparr>)"

text \<open>The state of the loop over the rows.\<close>

record vstate =
  st_validation :: ValidationResult
  processedData :: "CountryData list"
  countrySet :: "string set"

text \<open>The object literal \<open>countryData\<close> pushed for an accepted row.\<close>

definition countryData :: "row \<Rightarrow> string \<Rightarrow> number \<Rightarrow> (string \<times> number) list \<Rightarrow> CountryData" where
  "countryData mappedRow c tscore scores =
     \<lparr>country = Text (trim c),
      ai = get mappedRow ''ai'',
      quantum = get mappedRow ''quantum'',
      semiconductors = get mappedRow ''semiconductors'',
      biotech = get mappedRow ''biotech'',
      space = get mappedRow ''space'',
      fintech = get mappedRow ''fintech'',
      totalScore = tscore,
      sectorScores = scores\<rparr>"

text \<open>\<open>Object.values(sectorScores).reduce((sum, score) => sum + score, 0)\<close>.\<close>

definition sum_scores :: "(string \<times> number) list \<Rightarrow> number" where
  "sum_scores scores = foldl jadd (Fin 0) (map snd scores)"

text \<open>The body of the loop over the rows, for the row at position \<open>index\<close>.\<close>

definition process_row :: "vstate \<Rightarrow> rawrow \<Rightarrow> nat \<Rightarrow> vstate" where
  "process_row st row index =
     (case row of
        None \<Rightarrow> st
      | Some r \<Rightarrow>
          if length (Object_keys r) = 0 then st
          else
            let mappedRow = map_columns r in
            (case country_name (get mappedRow ''country'') of
              None \<Rightarrow>
                st\<lparr>st_validation :=
                     push_error (st_validation st)
                       (''Invalid country name at row '' @ show_nat (index + 1))\<rparr>
            | Some c \<Rightarrow>
                if c \<in> countrySet st then
                  st\<lparr>st_validation :=
                       push_warning (st_validation st) (''Duplicate country found: '' @ c)\<rparr>
                else
                  let st1 = st\<lparr>countrySet := insert c (countrySet st)\<rparr>;
                      lp = foldl (check_sector mappedRow c)
                             \<lparr>sl_validation = st_validation st1, sl_sectorScores = [],
                              hasInvalidScore = False\<rparr>
                             SECTOR_WEIGHTS;
                      st2 = st1\<lparr>st_validation := sl_validation lp\<rparr>
                  in
                  if hasInvalidScore lp then st2
                  else
                    st2\<lparr>processedData := processedData st2 @
                          [countryData mappedRow c (sum_scores (sl_sectorScores lp))
                             (sl_sectorScores lp)]\<rparr>))"

text \<open>\<open>rawData.forEach((row, index) => ...)\<close>, the index counted from \<open>i\<close>.\<close>

fun forEach_rows :: "vstate \<Rightarrow> nat \<Rightarrow> rawrow list \<Rightarrow> vstate" where
  "forEach_rows st i [] = st"
| "forEach_rows st i (r # rs) = forEach_rows (process_row st r i) (Suc i) rs"

definition first_columns :: "rawrow list \<Rightarrow> string list" where
  "first_columns rawData =
     (case rawData of [] \<Rightarrow> [] | None # _ \<Rightarrow> [] | Some r # _ \<Rightarrow> Object_keys r)"

definition missingColumns :: "rawrow list \<Rightarrow> string list" where
  "missingColumns rawData =
     filter (\<lambda>col. col \<notin> set (first_columns rawData)) REQUIRED_COLUMNS"

definition init_validation :: ValidationResult where
  "init_validation = \<lparr>isValid = True, errors = [], warnings = []\<rparr>"

definition init_state :: vstate where
  "init_state = \<lparr>st_validation = init_validation, processedData = [], countrySet = {}\<rparr>"

definition validateAndProcessData :: "rawrow list \<Rightarrow> ProcessedData" where
  "validateAndProcessData rawData =
     (if length rawData = 0 then
        \<lparr>data = [],
         validation = push_error (init_validation\<lparr>isValid := False\<rparr>) ''No data provided''\<rparr>
      else if length (missingColumns rawData) > 0 then
        \<lparr>data = [],
         validation = push_error (init_validation\<lparr>isValid := False\<rparr>)
           (''Missing required columns: '' @ join '', '' (missingColumns rawData))\<rparr>
      else
        let st = forEach_rows init_state 0 rawData;
            v = st_validation st
        in \<lparr>data = processedData st,
            validation = (if length (errors v) > 0 then v\<lparr>isValid := False\<rparr> else v)\<rparr>)"

section \<open>standardizeCountryNames\<close>

text \<open>
  The members that a plain object inherits from \<open>Object.prototype\<close>. Each is a function,
  but \<open>__proto__\<close>, which reads as the prototype object; all of them are truthy.
\<close>

definition OBJECT_PROTOTYPE_MEMBERS :: "string list" where
  "OBJECT_PROTOTYPE_MEMBERS =
     [''constructor'', ''__defineGetter__'', ''__defineSetter__'', ''hasOwnProperty'',
      ''__lookupGetter__'', ''__lookupSetter__'', ''isPrototypeOf'', ''propertyIsEnumerable'',
      ''toString'', ''valueOf'', ''__proto__'', ''toLocaleString'']"

text \<open>
  \<open>COUNTRY_NAME_MAPPINGS[key]\<close> for a string key: the table's own entry, else the inherited
  member of that name, else \<open>undefined\<close> (\<open>None\<close>).
\<close>

definition lookup_mapping :: "string \<Rightarrow> country_value option" where
  "lookup_mapping k =
     (case map_of COUNTRY_NAME_MAPPINGS k of
        Some v \<Rightarrow> Some (Text v)
      | None \<Rightarrow> if k \<in> set OBJECT_PROTOTYPE_MEMBERS then Some (Inherited k) else None)"

fun truthy_value :: "country_value \<Rightarrow> bool" where
  "truthy_value (Text s) = (s \<noteq> [])"
| "truthy_value (Inherited m) = True"

text \<open>
  \<open>COUNTRY_NAME_MAPPINGS[item.country] || item.country\<close>. When \<open>item.country\<close> is already an
  inherited member, the key is its string form (the source text of a function, or
  \<open>[object Object]\<close>), which names neither an entry nor an inherited member: the lookup is
  \<open>undefined\<close> and the value stays.
\<close>

definition standardize_name :: "country_value \<Rightarrow> country_value" where
  "standardize_name c =
     (case c of
        Inherited m \<Rightarrow> c
      | Text s \<Rightarrow>
          (case lookup_mapping s of
             None \<Rightarrow> c
           | Some v \<Rightarrow> if truthy_value v then v else c))"

definition standardizeCountryNames :: "CountryData list \<Rightarrow> CountryData list" where
  "standardizeCountryNames d = map (\<lambda>item. item\<lparr>country := standardize_name (country item)\<rparr>) d"

section \<open>processExcelData\<close>

text \<open>
  The weights object: a sector key it does not have reads as \<open>undefined\<close>, which a
  multiplication converts to \<open>NaN\<close>.
\<close>

type_synonym SectorWeights = "string \<Rightarrow> number option"

definition toNumber :: "number option \<Rightarrow> number" where
  "toNumber v = (case v of None \<Rightarrow> NaN | Some n \<Rightarrow> n)"

definition apply_weights :: "SectorWeights \<Rightarrow> CountryData \<Rightarrow> CountryData" where
  "apply_weights weights c =
     (let scores =
        [(''ai'', jmul (parseFloat (ai c)) (toNumber (weights ''ai''))),
         (''quantum'', jmul (parseFloat (quantum c)) (toNumber (weights ''quantum''))),
         (''semiconductors'',
            jmul (parseFloat (semiconductors c)) (toNumber (weights ''semiconductors''))),
         (''biotech'', jmul (parseFloat (biotech c)) (toNumber (weights ''biotech''))),
         (''space'', jmul (parseFloat (space c)) (toNumber (weights ''space''))),
         (''fintech'', jmul (parseFloat (fintech c)) (toNumber (weights ''fintech'')))];
          tscore = sum_scores scores
      in c\<lparr>totalScore := tscore, sectorScores := scores\<rparr>)"

definition processExcelData :: "rawrow list \<Rightarrow> SectorWeights \<Rightarrow> CountryData list" where
  "processExcelData rawData weights =
     (let r = validateAndProcessData rawData in
      if \<not> isValid (validation r) then []
      else map (apply_weights weights) (standardizeCountryNames (data r)))"

text \<open>The weights the application starts with.\<close>

definition defaultSectorWeights :: SectorWeights where
  "defaultSectorWeights =
     map_of [(''ai'', Fin 0.2), (''quantum'', Fin 0.1), (''semiconductors'', Fin 0.2),
             (''biotech'', Fin 0.2), (''space'', Fin 0.2), (''fintech'', Fin 0.1)]"

section \<open>Notions used to state the properties\<close>

definition sector_keys :: "string list" where
  "sector_keys = Object_keys SECTOR_WEIGHTS"

text \<open>The parsed value of sector \<open>k\<close> of a mapped row, and whether the loop rejects it.\<close>

definition sector_value :: "row \<Rightarrow> string \<Rightarrow> number" where
  "sector_value m k = parseFloat (get m k)"

definition sector_rejected :: "row \<Rightarrow> string \<Rightarrow> bool" where
  "sector_rejected m k = (isNaN (sector_value m k) \<or> jlt (sector_value m k) (Fin 0))"

text \<open>The error and the warning that sector \<open>k\<close> of a row with country \<open>c\<close> calls for.\<close>

definition sector_errors :: "row \<Rightarrow> string \<Rightarrow> string \<Rightarrow> string list" where
  "sector_errors m c k =
     (if isNaN (sector_value m k) then [''Invalid '' @ k @ '' value for '' @ c]
      else if jlt (sector_value m k) (Fin 0) then [''Negative '' @ k @ '' value for '' @ c]
      else [])"

definition sector_warnings :: "row \<Rightarrow> string \<Rightarrow> string \<Rightarrow> string list" where
  "sector_warnings m c k =
     (if \<not> sector_rejected m k \<and> jlt (Fin 1) (sector_value m k)
      then [k @ '' value > 1 for '' @ c] else [])"

text \<open>The country string of a row, when the country check accepts it.\<close>

definition row_country :: "row \<Rightarrow> string option" where
  "row_country r = country_name (get (map_columns r) ''country'')"

text \<open>The record that the validator emits for an accepted row with country \<open>c\<close>.\<close>

definition validated_record :: "row \<Rightarrow> string \<Rightarrow> CountryData" where
  "validated_record r c =
     (let scores = map (\<lambda>k. (k, sector_value (map_columns r) k)) sector_keys
      in countryData (map_columns r) c (sum_scores scores) scores)"

text \<open>Everything of a record but \<open>totalScore\<close> and \<open>sectorScores\<close>.\<close>

definition raw_fields :: "CountryData \<Rightarrow> country_value \<times> cell list" where
  "raw_fields c = (country c, [ai c, quantum c, semiconductors c, biotech c, space c, fintech c])"

text \<open>Reading a score or a weight that may be absent, as a multiplication sees it.\<close>

definition score_of :: "(string \<times> number) list \<Rightarrow> string \<Rightarrow> number" where
  "score_of scores k = toNumber (map_of scores k)"

text \<open>
  The dot product of the raw scores with the weights \<open>wt\<close>, over the six sectors in their
  fixed order, summed from \<open>0\<close>.
\<close>

definition dot_product :: "(string \<times> number) list \<Rightarrow> (string \<Rightarrow> number) \<Rightarrow> number" where
  "dot_product raw wt = foldl jadd (Fin 0) (map (\<lambda>k. jmul (score_of raw k) (wt k)) sector_keys)"

text \<open>
  Two loop states that hold the same records, the same registered countries and as many
  errors, the first with one warning more.
\<close>

definition one_more_warning :: "vstate \<Rightarrow> vstate \<Rightarrow> bool" where
  "one_more_warning st st' =
     (processedData st = processedData st' \<and> countrySet st = countrySet st' \<and>
      isValid (st_validation st) = isValid (st_validation st') \<and>
      length (errors (st_validation st)) = length (errors (st_validation st')) \<and>
      length (warnings (st_validation st)) = Suc (length (warnings (st_validation st'))))"



section \<open>Sample inputs\<close>

definition sample_cells :: "string \<Rightarrow> cell \<Rightarrow> cell \<Rightarrow> row" where
  "sample_cells c a q =
     [(''Country'', Str c), (''AI'', a), (''Quantum'', q),
      (''Semiconductors'', Str ''0.5''), (''Biotech'', Num (Fin 0)),
      (''Space'', Num (Fin 2)), (''Fintech'', Num (Fin 1))]"

definition sample_row :: "string \<Rightarrow> cell \<Rightarrow> cell \<Rightarrow> rawrow" where
  "sample_row c a q = Some (sample_cells c a q)"

definition sample_record :: "string \<Rightarrow> CountryData" where
  "sample_record c =
     \<lparr>country = Text c, ai = Num (Fin 0.5), quantum = Num (Fin 0.25), semiconductors = Str ''0.5'',
      biotech = Num (Fin 0), space = Num (Fin 2), fintech = Num (Fin 1),
      totalScore = Fin 4.25,
      sectorScores = [(''ai'', Fin 0.5), (''quantum'', Fin 0.25), (''semiconductors'', Fin 0.5),
                      (''biotech'', Fin 0), (''space'', Fin 2), (''fintech'', Fin 1)]\<rparr>"

section \<open>Facts about the sector loop and the row loop\<close>

lemma update_fresh: "k \<notin> fst ` set xs \<Longrightarrow> AList.update k v xs = xs @ [(k, v)]"
  by (induction xs) auto

lemma check_sector_step:
  "k \<notin> fst ` set (sl_sectorScores st) \<Longrightarrow>
   check_sector m c st (k, w) =
     \<lparr>sl_validation = (sl_validation st)
        \<lparr>errors := errors (sl_validation st) @ sector_errors m c k,
         warnings := warnings (sl_validation st) @ sector_warnings m c k\<rparr>,
      sl_sectorScores = sl_sectorScores st @
        (if sector_rejected m k then [] else [(k, sector_value m k)]),
      hasInvalidScore = (hasInvalidScore st \<or> sector_rejected m k)\<rparr>"
  by (simp add: check_sector_def Let_def sector_errors_def sector_warnings_def
      sector_rejected_def sector_value_def push_error_def push_warning_def update_fresh)

lemma sector_loop_result:
  "distinct (map fst es) \<Longrightarrow> fst ` set (sl_sectorScores st) \<inter> fst ` set es = {} \<Longrightarrow>
   foldl (check_sector m c) st es =
     \<lparr>sl_validation = (sl_validation st)
        \<lparr>errors := errors (sl_validation st) @ concat (map (sector_errors m c) (map fst es)),
         warnings := warnings (sl_validation st) @ concat (map (sector_warnings m c) (map fst es))\<rparr>,
      sl_sectorScores = sl_sectorScores st @
        map (\<lambda>k. (k, sector_value m k)) (filter (\<lambda>k. \<not> sector_rejected m k) (map fst es)),
      hasInvalidScore = (hasInvalidScore st \<or> (\<exists>k \<in> set (map fst es). sector_rejected m k))\<rparr>"
proof (induction es arbitrary: st)
  case Nil
  then show ?case by simp
next
  case (Cons e es)
  obtain k w where e: "e = (k, w)" by (cases e)
  from Cons.prems e have fresh: "k \<notin> fst ` set (sl_sectorScores st)" by auto
  let ?st1 = "check_sector m c st (k, w)"
  have scores1: "fst ` set (sl_sectorScores ?st1) \<subseteq> insert k (fst ` set (sl_sectorScores st))"
    by (auto simp: check_sector_step[OF fresh])
  from Cons.prems e have "k \<notin> fst ` set es" by auto
  moreover from Cons.prems have "fst ` set (sl_sectorScores st) \<inter> fst ` set es = {}"
    by auto
  ultimately have disj: "fst ` set (sl_sectorScores ?st1) \<inter> fst ` set es = {}"
    using scores1 by blast
  from Cons.prems have "distinct (map fst es)" by simp
  from Cons.IH[OF this disj] show ?case
    by (simp add: e check_sector_step[OF fresh])
qed

lemma distinct_sector_keys: "distinct (map fst SECTOR_WEIGHTS)"
  by (simp add: SECTOR_WEIGHTS_def)

lemma validate_sectors:
  "foldl (check_sector m c) \<lparr>sl_validation = v, sl_sectorScores = [], hasInvalidScore = False\<rparr>
     SECTOR_WEIGHTS =
     \<lparr>sl_validation = v
        \<lparr>errors := errors v @ concat (map (sector_errors m c) sector_keys),
         warnings := warnings v @ concat (map (sector_warnings m c) sector_keys)\<rparr>,
      sl_sectorScores =
        map (\<lambda>k. (k, sector_value m k)) (filter (\<lambda>k. \<not> sector_rejected m k) sector_keys),
      hasInvalidScore = (\<exists>k \<in> set sector_keys. sector_rejected m k)\<rparr>"
  using sector_loop_result[OF distinct_sector_keys, of "\<lparr>sl_validation = v, sl_sectorScores = [], hasInvalidScore = False\<rparr>" m c]
  by (simp add: sector_keys_def Object_keys_def)

lemma map_columns_eq:
  "map_columns r =
     [(''country'', get r ''Country''), (''ai'', get r ''AI''), (''quantum'', get r ''Quantum''),
      (''semiconductors'', get r ''Semiconductors''), (''biotech'', get r ''Biotech''),
      (''space'', get r ''Space''), (''fintech'', get r ''Fintech'')]"
  by (simp add: map_columns_def COLUMN_MAPPINGS_def)

lemma row_country_eq: "row_country r = country_name (get r ''Country'')"
  by (simp add: row_country_def map_columns_eq get_def)

lemma country_name_Some: "country_name x = Some c \<longleftrightarrow> x = Str c \<and> c \<noteq> []"
  by (cases x) (auto simp: country_name_def)

lemma process_row_null: "process_row st None i = st"
  by (simp add: process_row_def)

lemma process_row_empty: "process_row st (Some []) i = st"
  by (simp add: process_row_def Object_keys_def)

lemma process_row_bad_country:
  "r \<noteq> [] \<Longrightarrow> row_country r = None \<Longrightarrow>
   process_row st (Some r) i =
     st\<lparr>st_validation := push_error (st_validation st)
          (''Invalid country name at row '' @ show_nat (i + 1))\<rparr>"
  by (simp add: process_row_def Object_keys_def row_country_def)

lemma process_row_duplicate:
  "r \<noteq> [] \<Longrightarrow> row_country r = Some c \<Longrightarrow> c \<in> countrySet st \<Longrightarrow>
   process_row st (Some r) i =
     st\<lparr>st_validation := push_warning (st_validation st) (''Duplicate country found: '' @ c)\<rparr>"
  by (simp add: process_row_def Object_keys_def row_country_def)

lemma filter_none_rejected:
  "\<not> (\<exists>k \<in> set ks. sector_rejected m k) \<Longrightarrow> filter (\<lambda>k. \<not> sector_rejected m k) ks = ks"
  by (induction ks) auto

lemma process_row_fresh:
  "r \<noteq> [] \<Longrightarrow> row_country r = Some c \<Longrightarrow> c \<notin> countrySet st \<Longrightarrow>
   process_row st (Some r) i =
     st\<lparr>countrySet := insert c (countrySet st),
        st_validation := (st_validation st)
          \<lparr>errors := errors (st_validation st) @
             concat (map (sector_errors (map_columns r) c) sector_keys),
           warnings := warnings (st_validation st) @
             concat (map (sector_warnings (map_columns r) c) sector_keys)\<rparr>,
        processedData := processedData st @
          (if \<exists>k \<in> set sector_keys. sector_rejected (map_columns r) k then []
           else [validated_record r c])\<rparr>"
  by (simp add: process_row_def Object_keys_def row_country_def Let_def validate_sectors
      validated_record_def filter_none_rejected del: foldl.simps)

lemma process_row_cases:
  obtains
    (skip) "process_row st row i = st"
  | (bad_country) r where "row = Some r" "r \<noteq> []" "row_country r = None"
      "process_row st row i =
         st\<lparr>st_validation := push_error (st_validation st)
              (''Invalid country name at row '' @ show_nat (i + 1))\<rparr>"
  | (duplicate) r c where "row = Some r" "r \<noteq> []" "row_country r = Some c" "c \<in> countrySet st"
      "process_row st row i =
         st\<lparr>st_validation := push_warning (st_validation st) (''Duplicate country found: '' @ c)\<rparr>"
  | (fresh) r c where "row = Some r" "r \<noteq> []" "row_country r = Some c" "c \<notin> countrySet st"
      "process_row st row i =
         st\<lparr>countrySet := insert c (countrySet st),
            st_validation := (st_validation st)
              \<lparr>errors := errors (st_validation st) @
                 concat (map (sector_errors (map_columns r) c) sector_keys),
               warnings := warnings (st_validation st) @
                 concat (map (sector_warnings (map_columns r) c) sector_keys)\<rparr>,
            processedData := processedData st @
              (if \<exists>k \<in> set sector_keys. sector_rejected (map_columns r) k then []
               else [validated_record r c])\<rparr>"
proof (cases row)
  case None
  then show ?thesis using skip by (simp add: process_row_null)
next
  case (Some r)
  show ?thesis
  proof (cases "r = []")
    case True
    with Some show ?thesis using skip by (simp add: process_row_empty)
  next
    case False
    show ?thesis
    proof (cases "row_country r")
      case None
      with Some False show ?thesis using bad_country process_row_bad_country by blast
    next
      case (Some c)
      with \<open>row = Some r\<close> False show ?thesis
        using duplicate[of r c] fresh[of r c] process_row_duplicate process_row_fresh
        by (cases "c \<in> countrySet st") blast+
    qed
  qed
qed

lemma forEach_rows_append:
  "forEach_rows st i (xs @ ys) = forEach_rows (forEach_rows st i xs) (i + length xs) ys"
  by (induction xs arbitrary: st i) simp_all

lemma forEach_rows_invariant:
  assumes "P st" and "\<And>s r j. r \<in> set rs \<Longrightarrow> P s \<Longrightarrow> P (process_row s r j)"
  shows "P (forEach_rows st i rs)"
  using assms by (induction rs arbitrary: st i) simp_all

lemma process_row_isValid:
  "isValid (st_validation (process_row st row i)) = isValid (st_validation st)"
  by (cases rule: process_row_cases[of st row i]) (simp_all add: push_error_def push_warning_def)

lemma process_row_errors: "prefix (errors (st_validation st)) (errors (st_validation (process_row st row i)))"
  by (cases rule: process_row_cases[of st row i]) (simp_all add: push_error_def push_warning_def)

lemma process_row_warnings: "prefix (warnings (st_validation st)) (warnings (st_validation (process_row st row i)))"
  by (cases rule: process_row_cases[of st row i]) (simp_all add: push_error_def push_warning_def)

lemma process_row_data: "prefix (processedData st) (processedData (process_row st row i))"
  by (cases rule: process_row_cases[of st row i]) (simp_all add: push_error_def push_warning_def)

lemma process_row_countrySet: "countrySet st \<subseteq> countrySet (process_row st row i)"
  by (cases rule: process_row_cases[of st row i]) auto

lemma forEach_rows_isValid:
  "isValid (st_validation (forEach_rows st i rs)) = isValid (st_validation st)"
  by (induction rs arbitrary: st i) (simp_all add: process_row_isValid)

lemma forEach_rows_errors: "prefix (errors (st_validation st)) (errors (st_validation (forEach_rows st i rs)))"
proof (induction rs arbitrary: st i)
  case (Cons r rs)
  show ?case using process_row_errors[of st r i] Cons[of "process_row st r i" "Suc i"]
    by (auto intro: prefix_order.trans)
qed simp

lemma forEach_rows_warnings: "prefix (warnings (st_validation st)) (warnings (st_validation (forEach_rows st i rs)))"
proof (induction rs arbitrary: st i)
  case (Cons r rs)
  show ?case using process_row_warnings[of st r i] Cons[of "process_row st r i" "Suc i"]
    by (auto intro: prefix_order.trans)
qed simp

lemma forEach_rows_data: "prefix (processedData st) (processedData (forEach_rows st i rs))"
proof (induction rs arbitrary: st i)
  case (Cons r rs)
  show ?case using process_row_data[of st r i] Cons[of "process_row st r i" "Suc i"]
    by (auto intro: prefix_order.trans)
qed simp

lemma forEach_rows_countrySet: "countrySet st \<subseteq> countrySet (forEach_rows st i rs)"
proof (induction rs arbitrary: st i)
  case (Cons r rs)
  show ?case using process_row_countrySet[of st r i] Cons[of "process_row st r i" "Suc i"]
    by auto
qed simp

lemma process_row_registers:
  "r \<noteq> [] \<Longrightarrow> row_country r = Some c \<Longrightarrow> c \<in> countrySet (process_row st (Some r) i)"
  by (cases "c \<in> countrySet st") (simp_all add: process_row_duplicate process_row_fresh)

lemma forEach_rows_registers:
  "Some r \<in> set rs \<Longrightarrow> r \<noteq> [] \<Longrightarrow> row_country r = Some c \<Longrightarrow>
   c \<in> countrySet (forEach_rows st i rs)"
proof (induction rs arbitrary: st i)
  case (Cons x rs)
  show ?case
  proof (cases "x = Some r")
    case True
    with Cons.prems have "c \<in> countrySet (process_row st x i)"
      by (simp add: process_row_registers)
    then show ?thesis using forEach_rows_countrySet[of "process_row st x i" "Suc i" rs] by auto
  next
    case False
    with Cons show ?thesis by simp
  qed
qed simp

section \<open>The validator as a whole\<close>

lemma validate_no_rows:
  "validateAndProcessData [] =
     \<lparr>data = [], validation = \<lparr>isValid = False, errors = [''No data provided''], warnings = []\<rparr>\<rparr>"
  by (simp add: validateAndProcessData_def push_error_def init_validation_def)

lemma validate_missing:
  "rows \<noteq> [] \<Longrightarrow> missingColumns rows \<noteq> [] \<Longrightarrow>
   validateAndProcessData rows =
     \<lparr>data = [],
      validation = \<lparr>isValid = False,
        errors = [''Missing required columns: '' @ join '', '' (missingColumns rows)],
        warnings = []\<rparr>\<rparr>"
  by (simp add: validateAndProcessData_def push_error_def init_validation_def)

lemma validate_loop:
  "rows \<noteq> [] \<Longrightarrow> missingColumns rows = [] \<Longrightarrow>
   validateAndProcessData rows =
     \<lparr>data = processedData (forEach_rows init_state 0 rows),
      validation =
        (if errors (st_validation (forEach_rows init_state 0 rows)) \<noteq> []
         then (st_validation (forEach_rows init_state 0 rows))\<lparr>isValid := False\<rparr>
         else st_validation (forEach_rows init_state 0 rows))\<rparr>"
  by (simp add: validateAndProcessData_def Let_def)

lemma missingColumns_first: "missingColumns (r # rs) = missingColumns [r]"
  by (simp add: missingColumns_def first_columns_def)

lemma missingColumns_iff:
  "missingColumns rows \<noteq> [] \<longleftrightarrow> (\<exists>col \<in> set REQUIRED_COLUMNS. col \<notin> set (first_columns rows))"
  by (simp add: missingColumns_def filter_empty_conv)

lemma isValid_iff_no_errors:
  "isValid (validation (validateAndProcessData rows)) \<longleftrightarrow>
   errors (validation (validateAndProcessData rows)) = []"
proof (cases "rows = []")
  case True
  then show ?thesis by (simp add: validate_no_rows)
next
  case False
  show ?thesis
  proof (cases "missingColumns rows = []")
    case True
    with False show ?thesis
      by (simp add: validate_loop forEach_rows_isValid init_state_def init_validation_def)
  next
    case False
    with \<open>rows \<noteq> []\<close> show ?thesis by (simp add: validate_missing)
  qed
qed

text \<open>
  Claim C4. When the input is empty, or the first row lacks one of the seven required
  columns, the validator returns no record, \<open>isValid = false\<close>, exactly one error (for a
  non-empty input the one listing the missing columns) and no warning; the result is the
  one for the first row alone, so no other row is looked at.
\<close>

theorem missing_columns_fail_fast:
  assumes "rows = [] \<or> (\<exists>col \<in> set REQUIRED_COLUMNS. col \<notin> set (first_columns rows))"
  shows "data (validateAndProcessData rows) = []
       \<and> \<not> isValid (validation (validateAndProcessData rows))
       \<and> errors (validation (validateAndProcessData rows)) =
           [if rows = [] then ''No data provided''
            else ''Missing required columns: '' @
                 join '', '' (filter (\<lambda>col. col \<notin> set (first_columns rows)) REQUIRED_COLUMNS)]
       \<and> warnings (validation (validateAndProcessData rows)) = []
       \<and> validateAndProcessData rows = validateAndProcessData (take 1 rows)"
proof (cases rows)
  case Nil
  then show ?thesis by (simp add: validate_no_rows)
next
  case (Cons r rs)
  with assms have miss: "missingColumns rows \<noteq> []" by (simp add: missingColumns_iff)
  then have miss1: "missingColumns [r] \<noteq> []" using Cons missingColumns_first[of r rs] by simp
  have m: "missingColumns rows =
      filter (\<lambda>col. col \<notin> set (first_columns rows)) REQUIRED_COLUMNS"
    by (simp add: missingColumns_def)
  have v: "validateAndProcessData rows =
     \<lparr>data = [],
      validation = \<lparr>isValid = False,
        errors = [''Missing required columns: '' @ join '', '' (missingColumns rows)],
        warnings = []\<rparr>\<rparr>"
    using Cons miss by (simp add: validate_missing)
  have "validateAndProcessData [r] =
     \<lparr>data = [],
      validation = \<lparr>isValid = False,
        errors = [''Missing required columns: '' @ join '', '' (missingColumns [r])],
        warnings = []\<rparr>\<rparr>"
    using miss1 by (simp add: validate_missing)
  with v have t: "validateAndProcessData rows = validateAndProcessData (take 1 rows)"
    using Cons missingColumns_first[of r rs] by simp
  have "data (validateAndProcessData rows) = []"
    and "\<not> isValid (validation (validateAndProcessData rows))"
    and "errors (validation (validateAndProcessData rows)) =
          [''Missing required columns: '' @ join '', '' (missingColumns rows)]"
    and "warnings (validation (validateAndProcessData rows)) = []"
    by (simp_all add: v)
  with t m Cons show ?thesis by simp
qed

theorem missing_columns_fail_fast_witness:
  "data (validateAndProcessData
     [Some [(''Country'', Str ''Peru''), (''AI'', Str ''x''), (''Space'', Num (Fin (- 1)))],
      sample_row ''Peru'' (Num (Fin (- 1))) (Str ''x'')]) = []
   \<and> errors (validation (validateAndProcessData
     [Some [(''Country'', Str ''Peru''), (''AI'', Str ''x''), (''Space'', Num (Fin (- 1)))],
      sample_row ''Peru'' (Num (Fin (- 1))) (Str ''x'')])) =
     [''Missing required columns: Quantum, Semiconductors, Biotech, Fintech'']
   \<and> warnings (validation (validateAndProcessData
     [Some [(''Country'', Str ''Peru''), (''AI'', Str ''x''), (''Space'', Num (Fin (- 1)))],
      sample_row ''Peru'' (Num (Fin (- 1))) (Str ''x'')])) = []"
proof -
  let ?rows = "[Some [(''Country'', Str ''Peru''), (''AI'', Str ''x''), (''Space'', Num (Fin (- 1)))],
      sample_row ''Peru'' (Num (Fin (- 1))) (Str ''x'')]"
  have h: "?rows = [] \<or> (\<exists>col \<in> set REQUIRED_COLUMNS. col \<notin> set (first_columns ?rows))"
    by code_simp
  have j: "filter (\<lambda>col. col \<notin> set (first_columns ?rows)) REQUIRED_COLUMNS =
      [''Quantum'', ''Semiconductors'', ''Biotech'', ''Fintech'']"
    by code_simp
  have k: "''Missing required columns: '' @
      join '', '' [''Quantum'', ''Semiconductors'', ''Biotech'', ''Fintech''] =
      ''Missing required columns: Quantum, Semiconductors, Biotech, Fintech''"
    by code_simp
  note w = missing_columns_fail_fast[OF h]
  have d: "data (validateAndProcessData ?rows) = []"
    using w by (rule conjunct1)
  have "errors (validation (validateAndProcessData ?rows)) =
      [if ?rows = [] then ''No data provided''
       else ''Missing required columns: '' @
            join '', '' (filter (\<lambda>col. col \<notin> set (first_columns ?rows)) REQUIRED_COLUMNS)]"
    using w by blast
  then have e: "errors (validation (validateAndProcessData ?rows)) =
      [''Missing required columns: Quantum, Semiconductors, Biotech, Fintech'']"
    unfolding j k by simp
  have "warnings (validation (validateAndProcessData ?rows)) = []"
    using w by blast
  with d e show ?thesis by blast
qed

section \<open>The orchestrator's short circuit\<close>

lemma rejected_has_error: "sector_rejected m k \<Longrightarrow> sector_errors m c k \<noteq> []"
  by (auto simp: sector_rejected_def sector_errors_def)

lemma accepted_no_error: "\<not> sector_rejected m k \<Longrightarrow> sector_errors m c k = []"
  by (simp add: sector_rejected_def sector_errors_def)

lemma concat_errors_empty_iff:
  "concat (map (sector_errors m c) ks) = [] \<longleftrightarrow> \<not> (\<exists>k \<in> set ks. sector_rejected m k)"
  by (induction ks) (auto simp: rejected_has_error accepted_no_error)

lemma first_row_object:
  assumes "missingColumns (x # rs) = []"
  obtains r where "x = Some r" "r \<noteq> []"
proof (cases x)
  case None
  with assms show ?thesis
    by (simp add: missingColumns_def first_columns_def REQUIRED_COLUMNS_def)
next
  case (Some r)
  with assms have "r \<noteq> []"
    by (auto simp: missingColumns_def first_columns_def REQUIRED_COLUMNS_def Object_keys_def)
  with Some that show ?thesis by blast
qed

lemma first_row_outcome:
  assumes "r \<noteq> []"
  shows "errors (st_validation (process_row init_state (Some r) 0)) \<noteq> []
       \<or> processedData (process_row init_state (Some r) 0) \<noteq> []"
proof (cases "row_country r")
  case None
  with assms show ?thesis by (simp add: process_row_bad_country push_error_def)
next
  case (Some c)
  have "c \<notin> countrySet init_state" by (simp add: init_state_def)
  note eq = process_row_fresh[OF assms Some this, of 0]
  show ?thesis
  proof (cases "\<exists>k \<in> set sector_keys. sector_rejected (map_columns r) k")
    case True
    then have "concat (map (sector_errors (map_columns r) c) sector_keys) \<noteq> []"
      using concat_errors_empty_iff[of "map_columns r" c sector_keys] by blast
    then show ?thesis by (simp add: eq)
  next
    case False
    then show ?thesis by (simp add: eq)
  qed
qed

lemma prefix_nonempty: "prefix xs ys \<Longrightarrow> xs \<noteq> [] \<Longrightarrow> ys \<noteq> []"
  by (cases xs) auto

lemma no_errors_some_record:
  assumes "errors (validation (validateAndProcessData rows)) = []"
  shows "data (validateAndProcessData rows) \<noteq> []"
proof (cases rows)
  case Nil
  with assms show ?thesis by (simp add: validate_no_rows)
next
  case (Cons x rs)
  show ?thesis
  proof (cases "missingColumns rows = []")
    case False
    with assms Cons show ?thesis by (simp add: validate_missing)
  next
    case True
    with Cons obtain r where r: "x = Some r" "r \<noteq> []" using first_row_object by blast
    let ?st1 = "process_row init_state (Some r) 0"
    let ?st = "forEach_rows init_state 0 rows"
    have st: "?st = forEach_rows ?st1 (Suc 0) rs" using Cons r by simp
    from assms True Cons have noerr: "errors (st_validation ?st) = []"
      by (simp add: validate_loop split: if_splits)
    have "prefix (errors (st_validation ?st1)) (errors (st_validation ?st))"
      unfolding st by (rule forEach_rows_errors)
    with noerr have "errors (st_validation ?st1) = []" by simp
    with first_row_outcome[OF r(2)] have "processedData ?st1 \<noteq> []" by simp
    moreover have "prefix (processedData ?st1) (processedData ?st)"
      unfolding st by (rule forEach_rows_data)
    ultimately have "processedData ?st \<noteq> []" by (rule prefix_nonempty[rotated])
    with True Cons show ?thesis by (simp add: validate_loop)
  qed
qed

text \<open>
  Claim C7. Whenever the validator records an error, \<open>processExcelData\<close> returns the empty
  list, whatever rows validated; when it records none (warnings or not), the result is the
  scored, standardized validator output, and it is not empty.
\<close>

theorem processExcelData_short_circuit:
  "(errors (validation (validateAndProcessData rows)) \<noteq> [] \<longrightarrow>
      processExcelData rows weights = [])
   \<and> (errors (validation (validateAndProcessData rows)) = [] \<longrightarrow>
      processExcelData rows weights =
        map (apply_weights weights) (standardizeCountryNames (data (validateAndProcessData rows)))
      \<and> processExcelData rows weights \<noteq> [])"
proof (intro conjI impI)
  assume "errors (validation (validateAndProcessData rows)) \<noteq> []"
  then show "processExcelData rows weights = []"
    by (simp add: processExcelData_def Let_def isValid_iff_no_errors)
next
  assume e: "errors (validation (validateAndProcessData rows)) = []"
  then show s: "processExcelData rows weights =
        map (apply_weights weights) (standardizeCountryNames (data (validateAndProcessData rows)))"
    by (simp add: processExcelData_def Let_def isValid_iff_no_errors)
  from no_errors_some_record[OF e] show "processExcelData rows weights \<noteq> []"
    by (simp add: s standardizeCountryNames_def)
qed

theorem processExcelData_short_circuit_witness:
  "errors (validation (validateAndProcessData
      [sample_row ''Chile'' (Num (Fin 0.5)) (Num (Fin 1)),
       sample_row ''Peru'' (Num (Fin (- 1))) (Num (Fin 1))])) = [''Negative ai value for Peru'']
   \<and> length (data (validateAndProcessData
      [sample_row ''Chile'' (Num (Fin 0.5)) (Num (Fin 1)),
       sample_row ''Peru'' (Num (Fin (- 1))) (Num (Fin 1))])) = 1
   \<and> processExcelData
      [sample_row ''Chile'' (Num (Fin 0.5)) (Num (Fin 1)),
       sample_row ''Peru'' (Num (Fin (- 1))) (Num (Fin 1))] defaultSectorWeights = []
   \<and> warnings (validation (validateAndProcessData
      [sample_row ''Chile'' (Num (Fin 3)) (Num (Fin 1)),
       sample_row ''Chile'' (Num (Fin 1)) (Num (Fin 1))])) =
      [''ai value > 1 for Chile'', ''space value > 1 for Chile'', ''Duplicate country found: Chile'']
   \<and> processExcelData
      [sample_row ''Chile'' (Num (Fin 3)) (Num (Fin 1)),
       sample_row ''Chile'' (Num (Fin 1)) (Num (Fin 1))] defaultSectorWeights \<noteq> []"
proof -
  let ?bad = "[sample_row ''Chile'' (Num (Fin 0.5)) (Num (Fin 1)),
       sample_row ''Peru'' (Num (Fin (- 1))) (Num (Fin 1))]"
  let ?warn = "[sample_row ''Chile'' (Num (Fin 3)) (Num (Fin 1)),
       sample_row ''Chile'' (Num (Fin 1)) (Num (Fin 1))]"
  have e1: "errors (validation (validateAndProcessData ?bad)) = [''Negative ai value for Peru'']"
    by code_simp
  have d1: "length (data (validateAndProcessData ?bad)) = 1"
    by code_simp
  have e2: "errors (validation (validateAndProcessData ?warn)) = []"
    by code_simp
  have w2: "warnings (validation (validateAndProcessData ?warn)) =
      [''ai value > 1 for Chile'', ''space value > 1 for Chile'', ''Duplicate country found: Chile'']"
    by code_simp
  from e1 have n1: "errors (validation (validateAndProcessData ?bad)) \<noteq> []" by simp
  from processExcelData_short_circuit[of ?bad defaultSectorWeights] n1
  have r1: "processExcelData ?bad defaultSectorWeights = []" by blast
  from processExcelData_short_circuit[of ?warn defaultSectorWeights] e2
  have r2: "processExcelData ?warn defaultSectorWeights \<noteq> []" by blast
  from e1 d1 r1 w2 r2 show ?thesis by blast
qed

section \<open>Sector validation of one row\<close>

lemma concat_single:
  "distinct ks \<Longrightarrow> k \<in> set ks \<Longrightarrow> (\<forall>k' \<in> set ks. k' \<noteq> k \<longrightarrow> f k' = []) \<Longrightarrow>
   concat (map f ks) = f k"
proof (induction ks)
  case Nil
  then show ?case by simp
next
  case (Cons a ks)
  show ?case
  proof (cases "a = k")
    case True
    with Cons.prems have "\<forall>k' \<in> set ks. f k' = []" by auto
    then have "concat (map f ks) = []" by (induction ks) auto
    with True show ?thesis by simp
  next
    case False
    with Cons.prems have "f a = []" "k \<in> set ks" "distinct ks"
      "\<forall>k' \<in> set ks. k' \<noteq> k \<longrightarrow> f k' = []" by auto
    with Cons.IH show ?thesis by simp
  qed
qed

lemma distinct_keys: "distinct sector_keys"
  by (simp add: sector_keys_def Object_keys_def distinct_sector_keys)

lemma negative_error:
  "jlt (sector_value m k) (Fin 0) \<Longrightarrow>
   sector_errors m c k = [''Negative '' @ k @ '' value for '' @ c]"
  by (cases "sector_value m k") (simp_all add: sector_errors_def isNaN_def)

text \<open>
  Claim C5. For a row with an accepted country that is not a duplicate, the six sector
  fields are parsed in order: a field that parses to \<open>NaN\<close> adds one \<open>Invalid\<close> error, a
  negative one adds one \<open>Negative\<close> error, a value above \<open>1\<close> that is neither adds one warning
  and nothing else. The row's record is appended exactly when no field is \<open>NaN\<close> or
  negative. When exactly one field is negative and no other field is rejected, the row is
  excluded and the only error added names that sector and the row's country.
\<close>

theorem sector_validation_per_row:
  assumes "r \<noteq> []" and "row_country r = Some c" and "c \<notin> countrySet st"
  shows "errors (st_validation (process_row st (Some r) i)) =
           errors (st_validation st) @ concat (map (sector_errors (map_columns r) c) sector_keys)
       \<and> warnings (st_validation (process_row st (Some r) i)) =
           warnings (st_validation st) @ concat (map (sector_warnings (map_columns r) c) sector_keys)
       \<and> processedData (process_row st (Some r) i) =
           processedData st @
             (if \<exists>k \<in> set sector_keys. sector_rejected (map_columns r) k then []
              else [validated_record r c])
       \<and> (\<forall>k \<in> set sector_keys.
            jlt (sector_value (map_columns r) k) (Fin 0) \<and>
            (\<forall>k' \<in> set sector_keys. k' \<noteq> k \<longrightarrow> \<not> sector_rejected (map_columns r) k') \<longrightarrow>
            errors (st_validation (process_row st (Some r) i)) =
              errors (st_validation st) @ [''Negative '' @ k @ '' value for '' @ c] \<and>
            processedData (process_row st (Some r) i) = processedData st)"
proof -
  note eq = process_row_fresh[OF assms, of i]
  have e: "errors (st_validation (process_row st (Some r) i)) =
           errors (st_validation st) @ concat (map (sector_errors (map_columns r) c) sector_keys)"
    by (simp add: eq)
  have w: "warnings (st_validation (process_row st (Some r) i)) =
           warnings (st_validation st) @ concat (map (sector_warnings (map_columns r) c) sector_keys)"
    by (simp add: eq)
  have d: "processedData (process_row st (Some r) i) =
           processedData st @
             (if \<exists>k \<in> set sector_keys. sector_rejected (map_columns r) k then []
              else [validated_record r c])"
    by (simp add: eq)
  have one: "errors (st_validation (process_row st (Some r) i)) =
              errors (st_validation st) @ [''Negative '' @ k @ '' value for '' @ c] \<and>
            processedData (process_row st (Some r) i) = processedData st"
    if k: "k \<in> set sector_keys" and neg: "jlt (sector_value (map_columns r) k) (Fin 0)"
      and rest: "\<forall>k' \<in> set sector_keys. k' \<noteq> k \<longrightarrow> \<not> sector_rejected (map_columns r) k'"
    for k
  proof -
    from rest have "\<forall>k' \<in> set sector_keys. k' \<noteq> k \<longrightarrow> sector_errors (map_columns r) c k' = []"
      by (simp add: accepted_no_error)
    from concat_single[OF distinct_keys k this]
    have "concat (map (sector_errors (map_columns r) c) sector_keys) =
        [''Negative '' @ k @ '' value for '' @ c]"
      by (simp add: negative_error[OF neg])
    moreover from neg have "sector_rejected (map_columns r) k"
      by (simp add: sector_rejected_def)
    with k have "\<exists>k \<in> set sector_keys. sector_rejected (map_columns r) k" by blast
    ultimately show ?thesis using e d by simp
  qed
  from e w d one show ?thesis by blast
qed

theorem sector_validation_per_row_witness:
  "errors (st_validation (process_row init_state
      (Some (sample_cells ''Peru'' (Num (Fin (- 1))) (Str ''x''))) 0)) =
     [''Negative ai value for Peru'', ''Invalid quantum value for Peru'']
   \<and> warnings (st_validation (process_row init_state
      (Some (sample_cells ''Peru'' (Num (Fin (- 1))) (Str ''x''))) 0)) =
     [''space value > 1 for Peru'']
   \<and> processedData (process_row init_state
      (Some (sample_cells ''Peru'' (Num (Fin (- 1))) (Str ''x''))) 0) = []
   \<and> errors (st_validation (process_row init_state
      (Some (sample_cells ''Peru'' (Num (Fin (- 1))) (Num (Fin 3)))) 0)) =
     [''Negative ai value for Peru'']
   \<and> processedData (process_row init_state
      (Some (sample_cells ''Peru'' (Num (Fin (- 1))) (Num (Fin 3)))) 0) = []"
proof -
  let ?r = "sample_cells ''Peru'' (Num (Fin (- 1))) (Str ''x'')"
  let ?q = "sample_cells ''Peru'' (Num (Fin (- 1))) (Num (Fin 3))"
  have fresh: "''Peru'' \<notin> countrySet init_state" by code_simp
  have r1: "?r \<noteq> []" by code_simp
  have r2: "row_country ?r = Some ''Peru''" by code_simp
  note t = sector_validation_per_row[OF r1 r2 fresh, of 0]
  have "errors (st_validation (process_row init_state (Some ?r) 0)) =
      errors (st_validation init_state) @
      concat (map (sector_errors (map_columns ?r) ''Peru'') sector_keys)"
    using t by (rule conjunct1)
  also have "\<dots> = [''Negative ai value for Peru'', ''Invalid quantum value for Peru'']"
    by code_simp
  finally have e: "errors (st_validation (process_row init_state (Some ?r) 0)) =
      [''Negative ai value for Peru'', ''Invalid quantum value for Peru'']" .
  have "warnings (st_validation (process_row init_state (Some ?r) 0)) =
      warnings (st_validation init_state) @
      concat (map (sector_warnings (map_columns ?r) ''Peru'') sector_keys)"
    using t by blast
  also have "\<dots> = [''space value > 1 for Peru'']"
    by code_simp
  finally have w: "warnings (st_validation (process_row init_state (Some ?r) 0)) =
      [''space value > 1 for Peru'']" .
  have "processedData (process_row init_state (Some ?r) 0) =
      processedData init_state @
        (if \<exists>k \<in> set sector_keys. sector_rejected (map_columns ?r) k then []
         else [validated_record ?r ''Peru''])"
    using t by blast
  also have "\<dots> = []"
    by code_simp
  finally have d: "processedData (process_row init_state (Some ?r) 0) = []" .
  have q1: "?q \<noteq> []" by code_simp
  have q2: "row_country ?q = Some ''Peru''" by code_simp
  note u = sector_validation_per_row[OF q1 q2 fresh, of 0]
  have k: "''ai'' \<in> set sector_keys" by code_simp
  have p: "jlt (sector_value (map_columns ?q) ''ai'') (Fin 0) \<and>
      (\<forall>k' \<in> set sector_keys. k' \<noteq> ''ai'' \<longrightarrow> \<not> sector_rejected (map_columns ?q) k')"
    by code_simp
  from u k p have one: "errors (st_validation (process_row init_state (Some ?q) 0)) =
        errors (st_validation init_state) @ [''Negative '' @ ''ai'' @ '' value for '' @ ''Peru''] \<and>
      processedData (process_row init_state (Some ?q) 0) = processedData init_state"
    by blast
  have i1: "errors (st_validation init_state) @ [''Negative '' @ ''ai'' @ '' value for '' @ ''Peru'']
      = [''Negative ai value for Peru'']"
    by code_simp
  have i2: "processedData init_state = []" by code_simp
  from one have "errors (st_validation (process_row init_state (Some ?q) 0)) =
      [''Negative ai value for Peru'']"
    unfolding i1 by (rule conjunct1)
  moreover from one have "processedData (process_row init_state (Some ?q) 0) = []"
    unfolding i2 by (rule conjunct2)
  ultimately show ?thesis using e w d by blast
qed

section \<open>Duplicate countries\<close>

lemma row_country_nonempty: "row_country r = Some c \<Longrightarrow> r \<noteq> []"
  by (auto simp: row_country_eq country_name_Some get_def)

lemma missingColumns_append: "pre \<noteq> [] \<Longrightarrow> missingColumns (pre @ rs) = missingColumns pre"
  by (cases pre) (simp_all add: missingColumns_def first_columns_def)

lemma duplicate_row_step:
  assumes "Some r1 \<in> set pre" and "row_country r1 = Some c" and "row_country r2 = Some c"
  shows "forEach_rows st i (pre @ [Some r2]) =
     (forEach_rows st i pre)
       \<lparr>st_validation := push_warning (st_validation (forEach_rows st i pre))
          (''Duplicate country found: '' @ c)\<rparr>"
proof -
  from assms have "c \<in> countrySet (forEach_rows st i pre)"
    by (simp add: forEach_rows_registers row_country_nonempty)
  with assms(3) show ?thesis
    by (simp add: forEach_rows_append process_row_duplicate row_country_nonempty)
qed

text \<open>
  Claim C10. The duplicate check comes before sector validation. A row whose country
  string equals that of an earlier row of the batch changes the loop state only by one
  \<open>Duplicate country found\<close> warning, whatever its six sector cells hold; so at the end of the
  validator it has added no record and no error, and has left \<open>isValid\<close> as it was.
\<close>

theorem duplicate_check_precedes_sector_validation:
  assumes "Some r1 \<in> set pre" and "row_country r1 = Some c" and "row_country r2 = Some c"
    and "missingColumns pre = []"
  shows "forEach_rows init_state 0 (pre @ [Some r2]) =
           (forEach_rows init_state 0 pre)
             \<lparr>st_validation := push_warning (st_validation (forEach_rows init_state 0 pre))
                (''Duplicate country found: '' @ c)\<rparr>
       \<and> data (validateAndProcessData (pre @ [Some r2])) = data (validateAndProcessData pre)
       \<and> errors (validation (validateAndProcessData (pre @ [Some r2]))) =
           errors (validation (validateAndProcessData pre))
       \<and> isValid (validation (validateAndProcessData (pre @ [Some r2]))) =
           isValid (validation (validateAndProcessData pre))
       \<and> warnings (validation (validateAndProcessData (pre @ [Some r2]))) =
           warnings (validation (validateAndProcessData pre)) @ [''Duplicate country found: '' @ c]"
proof -
  from assms(1) have ne: "pre \<noteq> []" by auto
  with assms(4) have m: "missingColumns (pre @ [Some r2]) = []"
    by (simp add: missingColumns_append)
  note step = duplicate_row_step[OF assms(1-3), of init_state 0]
  have d: "data (validateAndProcessData (pre @ [Some r2])) = data (validateAndProcessData pre)"
    using ne m assms(4) by (simp add: validate_loop step)
  have e: "errors (validation (validateAndProcessData (pre @ [Some r2]))) =
           errors (validation (validateAndProcessData pre))"
    using ne m assms(4) by (simp add: validate_loop step push_warning_def)
  have w: "warnings (validation (validateAndProcessData (pre @ [Some r2]))) =
           warnings (validation (validateAndProcessData pre)) @ [''Duplicate country found: '' @ c]"
    using ne m assms(4) by (simp add: validate_loop step push_warning_def)
  from e have "isValid (validation (validateAndProcessData (pre @ [Some r2]))) =
           isValid (validation (validateAndProcessData pre))"
    by (simp add: isValid_iff_no_errors)
  with step d e w show ?thesis by blast
qed

theorem duplicate_check_precedes_sector_validation_witness:
  "data (validateAndProcessData
      [sample_row ''Chile'' (Num (Fin 1)) (Num (Fin 1)),
       Some (sample_cells ''Chile'' (Str ''x'') (Num (Fin (- 1))))]) =
   data (validateAndProcessData [sample_row ''Chile'' (Num (Fin 1)) (Num (Fin 1))])
   \<and> errors (validation (validateAndProcessData
      [sample_row ''Chile'' (Num (Fin 1)) (Num (Fin 1)),
       Some (sample_cells ''Chile'' (Str ''x'') (Num (Fin (- 1))))])) = []
   \<and> warnings (validation (validateAndProcessData
      [sample_row ''Chile'' (Num (Fin 1)) (Num (Fin 1)),
       Some (sample_cells ''Chile'' (Str ''x'') (Num (Fin (- 1))))])) =
     [''space value > 1 for Chile'', ''Duplicate country found: Chile'']"
proof -
  let ?pre = "[sample_row ''Chile'' (Num (Fin 1)) (Num (Fin 1))]"
  let ?r1 = "sample_cells ''Chile'' (Num (Fin 1)) (Num (Fin 1))"
  let ?r2 = "sample_cells ''Chile'' (Str ''x'') (Num (Fin (- 1)))"
  have h1: "Some ?r1 \<in> set ?pre" by (simp add: sample_row_def)
  have h2: "row_country ?r1 = Some ''Chile''" by code_simp
  have h3: "row_country ?r2 = Some ''Chile''" by code_simp
  have h4: "missingColumns ?pre = []" by code_simp
  note t = duplicate_check_precedes_sector_validation[OF h1 h2 h3 h4]
  have d: "data (validateAndProcessData (?pre @ [Some ?r2])) = data (validateAndProcessData ?pre)"
    using t by blast
  have "errors (validation (validateAndProcessData (?pre @ [Some ?r2]))) =
      errors (validation (validateAndProcessData ?pre))"
    using t by blast
  also have "\<dots> = []" by code_simp
  finally have e: "errors (validation (validateAndProcessData (?pre @ [Some ?r2]))) = []" .
  have "warnings (validation (validateAndProcessData (?pre @ [Some ?r2]))) =
      warnings (validation (validateAndProcessData ?pre)) @ [''Duplicate country found: '' @ ''Chile'']"
    using t by blast
  also have "\<dots> = [''space value > 1 for Chile'', ''Duplicate country found: Chile'']"
    by code_simp
  finally have w: "warnings (validation (validateAndProcessData (?pre @ [Some ?r2]))) =
      [''space value > 1 for Chile'', ''Duplicate country found: Chile'']" .
  from d e w show ?thesis by simp
qed

section \<open>Deleting a duplicate row\<close>

lemma one_more_warning_step:
  assumes "one_more_warning st st'"
  shows "one_more_warning (process_row st row i) (process_row st' row j)"
proof (cases row)
  case None
  with assms show ?thesis by (simp add: process_row_null)
next
  case (Some r)
  show ?thesis
  proof (cases "r = []")
    case True
    with Some assms show ?thesis by (simp add: process_row_empty)
  next
    case False
    from assms have cs: "countrySet st = countrySet st'" by (simp add: one_more_warning_def)
    show ?thesis
    proof (cases "row_country r")
      case None
      with Some False assms show ?thesis
        by (simp add: process_row_bad_country one_more_warning_def push_error_def)
    next
      case (Some c)
      show ?thesis
      proof (cases "c \<in> countrySet st")
        case True
        with cs have "c \<in> countrySet st'" by simp
        with True Some False \<open>row = Some r\<close> assms show ?thesis
          by (simp add: process_row_duplicate one_more_warning_def push_warning_def)
      next
        case no: False
        with cs have "c \<notin> countrySet st'" by simp
        with no Some False \<open>row = Some r\<close> assms show ?thesis
          by (simp add: process_row_fresh one_more_warning_def)
      qed
    qed
  qed
qed

lemma one_more_warning_loop:
  "one_more_warning st st' \<Longrightarrow>
   one_more_warning (forEach_rows st i rs) (forEach_rows st' j rs)"
  by (induction rs arbitrary: st st' i j) (simp_all add: one_more_warning_step)

lemma process_row_origin:
  "c \<in> countrySet (process_row st row i) \<Longrightarrow>
   c \<in> countrySet st \<or> (\<exists>r. row = Some r \<and> row_country r = Some c)"
  by (cases rule: process_row_cases[of st row i]) auto

lemma forEach_rows_origin:
  "c \<in> countrySet (forEach_rows st i rs) \<Longrightarrow>
   c \<in> countrySet st \<or> (\<exists>r. Some r \<in> set rs \<and> row_country r = Some c)"
proof (induction rs arbitrary: st i)
  case Nil
  then show ?case by simp
next
  case (Cons x rs)
  from Cons.prems have "c \<in> countrySet (forEach_rows (process_row st x i) (Suc i) rs)" by simp
  from Cons.IH[OF this] process_row_origin[of c st x i] show ?case by auto
qed

lemma validate_loop_fields:
  assumes "rows \<noteq> []" and "missingColumns rows = []"
  shows "data (validateAndProcessData rows) = processedData (forEach_rows init_state 0 rows)"
    and "errors (validation (validateAndProcessData rows)) =
         errors (st_validation (forEach_rows init_state 0 rows))"
    and "warnings (validation (validateAndProcessData rows)) =
         warnings (st_validation (forEach_rows init_state 0 rows))"
  using assms by (simp_all add: validate_loop)

lemma first_occurrence_recorded:
  assumes "row_country r1 = Some c"
    and "\<forall>r. Some r \<in> set pre \<longrightarrow> row_country r \<noteq> Some c"
    and "\<not> (\<exists>k \<in> set sector_keys. sector_rejected (map_columns r1) k)"
  shows "validated_record r1 c \<in> set (processedData (forEach_rows init_state 0 (pre @ Some r1 # rest)))"
proof -
  let ?s0 = "forEach_rows init_state 0 pre"
  let ?s1 = "process_row ?s0 (Some r1) (length pre)"
  have "c \<notin> countrySet ?s0"
    using forEach_rows_origin[of c init_state 0 pre] assms(2) by (auto simp: init_state_def)
  from process_row_fresh[OF row_country_nonempty[OF assms(1)] assms(1) this, of "length pre"] assms(3)
  have "processedData ?s1 = processedData ?s0 @ [validated_record r1 c]" by simp
  then have "validated_record r1 c \<in> set (processedData ?s1)" by simp
  moreover have "forEach_rows init_state 0 (pre @ Some r1 # rest) =
      forEach_rows ?s1 (Suc (length pre)) rest"
    by (simp add: forEach_rows_append)
  moreover have "prefix (processedData ?s1) (processedData (forEach_rows ?s1 (Suc (length pre)) rest))"
    by (rule forEach_rows_data)
  ultimately show ?thesis using set_mono_prefix by fastforce
qed

text \<open>
  Claim C6, as the code has it. Take a batch with the required columns and two rows that
  carry the same accepted country string. The later row is dropped with exactly one
  warning and no error: the validator returns the same records, as many errors and the
  same \<open>isValid\<close> as for the batch without that row, and one warning more, the
  \<open>Duplicate country found\<close> one. The record of the earlier row is in the output, as the
  validator builds it from that row alone, when that row is the first with this country
  and none of its sector fields is rejected.
\<close>

theorem first_occurrence_wins:
  assumes "row_country r1 = Some c" and "row_country r2 = Some c"
    and "missingColumns (pre @ Some r1 # mid @ Some r2 # post) = []"
  shows "data (validateAndProcessData (pre @ Some r1 # mid @ Some r2 # post)) =
           data (validateAndProcessData (pre @ Some r1 # mid @ post))
       \<and> length (errors (validation (validateAndProcessData (pre @ Some r1 # mid @ Some r2 # post)))) =
           length (errors (validation (validateAndProcessData (pre @ Some r1 # mid @ post))))
       \<and> isValid (validation (validateAndProcessData (pre @ Some r1 # mid @ Some r2 # post))) =
           isValid (validation (validateAndProcessData (pre @ Some r1 # mid @ post)))
       \<and> length (warnings (validation (validateAndProcessData (pre @ Some r1 # mid @ Some r2 # post)))) =
           Suc (length (warnings (validation (validateAndProcessData (pre @ Some r1 # mid @ post)))))
       \<and> ''Duplicate country found: '' @ c \<in>
           set (warnings (validation (validateAndProcessData (pre @ Some r1 # mid @ Some r2 # post))))
       \<and> ((\<forall>r. Some r \<in> set pre \<longrightarrow> row_country r \<noteq> Some c) \<and>
           \<not> (\<exists>k \<in> set sector_keys. sector_rejected (map_columns r1) k) \<longrightarrow>
           validated_record r1 c \<in>
             set (data (validateAndProcessData (pre @ Some r1 # mid @ Some r2 # post))))"
proof -
  let ?P = "pre @ Some r1 # mid"
  let ?full = "pre @ Some r1 # mid @ Some r2 # post"
  let ?without = "pre @ Some r1 # mid @ post"
  let ?msg = "''Duplicate country found: '' @ c"
  let ?sP = "forEach_rows init_state 0 ?P"
  let ?sP2 = "forEach_rows init_state 0 (?P @ [Some r2])"
  let ?ff = "forEach_rows init_state 0 ?full"
  let ?fw = "forEach_rows init_state 0 ?without"
  have full_split: "?full = (pre @ [Some r1]) @ (mid @ Some r2 # post)" by simp
  have without_split: "?without = (pre @ [Some r1]) @ (mid @ post)" by simp
  have mf: "missingColumns ?full = []" by (rule assms(3))
  have "missingColumns ?without = missingColumns (pre @ [Some r1])"
    unfolding without_split by (rule missingColumns_append) simp
  also have "\<dots> = missingColumns ?full"
    unfolding full_split by (rule missingColumns_append[symmetric]) simp
  finally have mw: "missingColumns ?without = []" using mf by simp
  have nf: "?full \<noteq> []" and nw: "?without \<noteq> []" by simp_all
  have "Some r1 \<in> set ?P" by simp
  from duplicate_row_step[OF this assms(1,2), of init_state 0]
  have step: "?sP2 = ?sP\<lparr>st_validation := push_warning (st_validation ?sP) ?msg\<rparr>" .
  then have sim0: "one_more_warning ?sP2 ?sP"
    by (simp add: one_more_warning_def push_warning_def)
  have ff: "?ff = forEach_rows ?sP2 (length (?P @ [Some r2])) post"
    using forEach_rows_append[of init_state 0 "?P @ [Some r2]" post] by simp
  have fw: "?fw = forEach_rows ?sP (length ?P) post"
    using forEach_rows_append[of init_state 0 ?P post] by simp
  from one_more_warning_loop[OF sim0, of "length (?P @ [Some r2])" post "length ?P"]
  have sim: "one_more_warning ?ff ?fw" unfolding ff fw .
  note F = validate_loop_fields[OF nf mf]
  note W = validate_loop_fields[OF nw mw]
  have d: "data (validateAndProcessData ?full) = data (validateAndProcessData ?without)"
    using sim by (simp add: F W one_more_warning_def)
  have e: "length (errors (validation (validateAndProcessData ?full))) =
      length (errors (validation (validateAndProcessData ?without)))"
    using sim by (simp add: F W one_more_warning_def)
  from e have v: "isValid (validation (validateAndProcessData ?full)) =
      isValid (validation (validateAndProcessData ?without))"
    unfolding isValid_iff_no_errors by (metis length_0_conv)
  have w: "length (warnings (validation (validateAndProcessData ?full))) =
      Suc (length (warnings (validation (validateAndProcessData ?without))))"
    using sim by (simp add: F W one_more_warning_def)
  have "?msg \<in> set (warnings (st_validation ?sP2))"
    by (subst step) (simp add: push_warning_def)
  moreover have "prefix (warnings (st_validation ?sP2)) (warnings (st_validation ?ff))"
    unfolding ff by (rule forEach_rows_warnings)
  ultimately have "?msg \<in> set (warnings (st_validation ?ff))"
    using set_mono_prefix by fastforce
  then have m: "?msg \<in> set (warnings (validation (validateAndProcessData ?full)))"
    by (simp add: F)
  have r: "validated_record r1 c \<in> set (data (validateAndProcessData ?full))"
    if "\<forall>r. Some r \<in> set pre \<longrightarrow> row_country r \<noteq> Some c"
      and "\<not> (\<exists>k \<in> set sector_keys. sector_rejected (map_columns r1) k)"
    using first_occurrence_recorded[OF assms(1) that, of "mid @ Some r2 # post"]
    by (simp add: F)
  from d e v w m r show ?thesis by blast
qed

theorem first_occurrence_wins_witness:
  "data (validateAndProcessData
      ([] @ Some (sample_cells ''Chile'' (Num (Fin 0.5)) (Num (Fin 1))) #
       [sample_row ''Peru'' (Num (Fin 1)) (Num (Fin 1))] @
       Some (sample_cells ''Chile'' (Str ''x'') (Num (Fin (- 1)))) #
       [sample_row ''Cuba'' (Num (Fin 1)) (Num (Fin 1))])) =
   data (validateAndProcessData
      ([] @ Some (sample_cells ''Chile'' (Num (Fin 0.5)) (Num (Fin 1))) #
       [sample_row ''Peru'' (Num (Fin 1)) (Num (Fin 1))] @
       [sample_row ''Cuba'' (Num (Fin 1)) (Num (Fin 1))]))
   \<and> validated_record (sample_cells ''Chile'' (Num (Fin 0.5)) (Num (Fin 1))) ''Chile'' \<in>
     set (data (validateAndProcessData
      ([] @ Some (sample_cells ''Chile'' (Num (Fin 0.5)) (Num (Fin 1))) #
       [sample_row ''Peru'' (Num (Fin 1)) (Num (Fin 1))] @
       Some (sample_cells ''Chile'' (Str ''x'') (Num (Fin (- 1)))) #
       [sample_row ''Cuba'' (Num (Fin 1)) (Num (Fin 1))])))
   \<and> ''Duplicate country found: '' @ ''Chile'' \<in>
     set (warnings (validation (validateAndProcessData
      ([] @ Some (sample_cells ''Chile'' (Num (Fin 0.5)) (Num (Fin 1))) #
       [sample_row ''Peru'' (Num (Fin 1)) (Num (Fin 1))] @
       Some (sample_cells ''Chile'' (Str ''x'') (Num (Fin (- 1)))) #
       [sample_row ''Cuba'' (Num (Fin 1)) (Num (Fin 1))]))))"
proof -
  let ?r1 = "sample_cells ''Chile'' (Num (Fin 0.5)) (Num (Fin 1))"
  let ?r2 = "sample_cells ''Chile'' (Str ''x'') (Num (Fin (- 1)))"
  let ?mid = "[sample_row ''Peru'' (Num (Fin 1)) (Num (Fin 1))]"
  let ?post = "[sample_row ''Cuba'' (Num (Fin 1)) (Num (Fin 1))]"
  have h1: "row_country ?r1 = Some ''Chile''" by code_simp
  have h2: "row_country ?r2 = Some ''Chile''" by code_simp
  have h3: "missingColumns ([] @ Some ?r1 # ?mid @ Some ?r2 # ?post) = []" by code_simp
  have h4: "\<forall>r. Some r \<in> set [] \<longrightarrow> row_country r \<noteq> Some ''Chile''" by simp
  have h5: "\<not> (\<exists>k \<in> set sector_keys. sector_rejected (map_columns ?r1) k)" by code_simp
  from first_occurrence_wins[OF h1 h2 h3] h4 h5 show ?thesis by blast
qed

text \<open>
  The first occurrence is not always in the output. When it is itself rejected by sector
  validation, its country has been registered before its sectors were checked, so the
  later row is still dropped as a duplicate and no record with that country appears.
\<close>

theorem first_occurrence_wins_counterexample:
  "data (validateAndProcessData
      [sample_row ''Peru'' (Num (Fin (- 1))) (Num (Fin 1)),
       sample_row ''Peru'' (Num (Fin 0.5)) (Num (Fin 1))]) = []
   \<and> errors (validation (validateAndProcessData
      [sample_row ''Peru'' (Num (Fin (- 1))) (Num (Fin 1)),
       sample_row ''Peru'' (Num (Fin 0.5)) (Num (Fin 1))])) = [''Negative ai value for Peru'']
   \<and> warnings (validation (validateAndProcessData
      [sample_row ''Peru'' (Num (Fin (- 1))) (Num (Fin 1)),
       sample_row ''Peru'' (Num (Fin 0.5)) (Num (Fin 1))])) =
     [''space value > 1 for Peru'', ''Duplicate country found: Peru'']"
  by code_simp

section \<open>Name standardization\<close>

lemma alias_values_checked:
  "\<forall>v \<in> set (map snd COUNTRY_NAME_MAPPINGS).
     map_of COUNTRY_NAME_MAPPINGS v = None \<and> v \<noteq> [] \<and> v \<notin> set OBJECT_PROTOTYPE_MEMBERS"
  by code_simp

lemma alias_values_canonical:
  assumes "map_of COUNTRY_NAME_MAPPINGS c = Some v"
  shows "lookup_mapping v = None \<and> v \<noteq> []"
proof -
  from assms have "(c, v) \<in> set COUNTRY_NAME_MAPPINGS" by (rule map_of_SomeD)
  then have "v \<in> set (map snd COUNTRY_NAME_MAPPINGS)" by force
  with alias_values_checked
  have "map_of COUNTRY_NAME_MAPPINGS v = None \<and> v \<noteq> [] \<and> v \<notin> set OBJECT_PROTOTYPE_MEMBERS"
    by blast
  then show ?thesis by (simp add: lookup_mapping_def)
qed

lemma standardize_name_idem: "standardize_name (standardize_name c) = standardize_name c"
proof (cases c)
  case (Inherited m)
  then show ?thesis by (simp add: standardize_name_def)
next
  case (Text s)
  show ?thesis
  proof (cases "map_of COUNTRY_NAME_MAPPINGS s")
    case (Some v)
    with alias_values_canonical[OF Some] Text show ?thesis
      by (simp add: standardize_name_def lookup_mapping_def)
  next
    case None
    with Text show ?thesis
      by (simp add: standardize_name_def lookup_mapping_def)
  qed
qed

lemma standardizeCountryNames_idem:
  "standardizeCountryNames (standardizeCountryNames x) = standardizeCountryNames x"
  by (simp add: standardizeCountryNames_def standardize_name_idem)

lemma standardize_name_aliases:
  "list_all (\<lambda>(k, v). standardize_name (Text k) = Text v) COUNTRY_NAME_MAPPINGS"
  by code_simp

lemma standardize_name_unknown:
  "s \<notin> set (Object_keys COUNTRY_NAME_MAPPINGS) \<Longrightarrow> s \<notin> set OBJECT_PROTOTYPE_MEMBERS \<Longrightarrow>
   standardize_name (Text s) = Text s"
  by (simp add: standardize_name_def lookup_mapping_def Object_keys_def
      map_of_eq_None_iff[THEN iffD2])

lemma standardize_name_inherited:
  "s \<in> set OBJECT_PROTOTYPE_MEMBERS \<Longrightarrow> standardize_name (Text s) = Inherited s"
proof -
  have "\<forall>m \<in> set OBJECT_PROTOTYPE_MEMBERS. standardize_name (Text m) = Inherited m"
    by code_simp
  then show "s \<in> set OBJECT_PROTOTYPE_MEMBERS \<Longrightarrow> standardize_name (Text s) = Inherited s"
    by blast
qed

text \<open>
  Claim C8. Of the claim, idempotence holds on every record list
  (\<open>standardizeCountryNames_idem\<close>), every alias of the table maps to its canonical form
  (\<open>standardize_name_aliases\<close>), and a name that is neither an alias nor the name of an
  inherited member passes through (\<open>standardize_name_unknown\<close>). The pass-through fails for
  the names that the alias table, a plain object, inherits: the record with country
  \<open>constructor\<close>, which is not in the alias table, does not come back unchanged; its
  country is replaced by the inherited member and is no longer a string.
\<close>

theorem standardizeCountryNames_inherited_name:
  "''constructor'' \<notin> set (Object_keys COUNTRY_NAME_MAPPINGS)
   \<and> standardizeCountryNames [sample_record ''constructor''] \<noteq> [sample_record ''constructor'']
   \<and> map country (standardizeCountryNames [sample_record ''constructor'']) =
       [Inherited ''constructor'']"
  by code_simp

section \<open>Scoring\<close>

lemma apply_weights_raw_fields: "raw_fields (apply_weights w c) = raw_fields c"
  by (simp add: apply_weights_def raw_fields_def Let_def)

lemma apply_weights_scores:
  "sectorScores (apply_weights w c) =
     [(''ai'', jmul (parseFloat (ai c)) (toNumber (w ''ai''))),
      (''quantum'', jmul (parseFloat (quantum c)) (toNumber (w ''quantum''))),
      (''semiconductors'', jmul (parseFloat (semiconductors c)) (toNumber (w ''semiconductors''))),
      (''biotech'', jmul (parseFloat (biotech c)) (toNumber (w ''biotech''))),
      (''space'', jmul (parseFloat (space c)) (toNumber (w ''space''))),
      (''fintech'', jmul (parseFloat (fintech c)) (toNumber (w ''fintech'')))]"
  by (simp add: apply_weights_def Let_def)

lemma apply_weights_other_sector:
  assumes "\<forall>k'. k' \<noteq> k \<longrightarrow> w1 k' = w2 k'" and "k' \<noteq> k"
  shows "map_of (sectorScores (apply_weights w1 c)) k' = map_of (sectorScores (apply_weights w2 c)) k'"
proof -
  from assms have "w1 k' = w2 k'" by simp
  then show ?thesis unfolding apply_weights_scores
    using assms by (simp del: prefix_code)
qed

lemma processExcelData_length:
  "length (processExcelData rows w1) = length (processExcelData rows w2)"
  by (simp add: processExcelData_def Let_def standardizeCountryNames_def)

lemma processExcelData_nth:
  assumes "i < length (processExcelData rows w)"
  shows "processExcelData rows w ! i =
         apply_weights w (standardizeCountryNames (data (validateAndProcessData rows)) ! i)"
  using assms
  by (cases "isValid (validation (validateAndProcessData rows))")
     (simp_all add: processExcelData_def Let_def)

text \<open>
  Claim C9. Two scoring runs over the same rows whose weights differ at most in sector
  \<open>k\<close> return lists of the same length in which corresponding records have the same
  country and the same six raw sector cells, the same sector keys in \<open>sectorScores\<close>, and
  the same weighted contribution for every sector other than \<open>k\<close>: only \<open>totalScore\<close> and
  the contribution of \<open>k\<close> can differ.
\<close>

theorem rescoring_frame:
  assumes "\<forall>k'. k' \<noteq> k \<longrightarrow> w1 k' = w2 k'"
  shows "length (processExcelData rows w1) = length (processExcelData rows w2)
       \<and> (\<forall>i < length (processExcelData rows w1).
            raw_fields (processExcelData rows w1 ! i) = raw_fields (processExcelData rows w2 ! i)
            \<and> map fst (sectorScores (processExcelData rows w1 ! i)) =
                map fst (sectorScores (processExcelData rows w2 ! i))
            \<and> (\<forall>k'. k' \<noteq> k \<longrightarrow>
                 map_of (sectorScores (processExcelData rows w1 ! i)) k' =
                 map_of (sectorScores (processExcelData rows w2 ! i)) k'))"
proof (intro conjI allI impI)
  show "length (processExcelData rows w1) = length (processExcelData rows w2)"
    by (rule processExcelData_length)
next
  fix i assume i: "i < length (processExcelData rows w1)"
  then have i2: "i < length (processExcelData rows w2)"
    using processExcelData_length[of rows w1 w2] by simp
  show "raw_fields (processExcelData rows w1 ! i) = raw_fields (processExcelData rows w2 ! i)"
    by (simp add: processExcelData_nth[OF i] processExcelData_nth[OF i2] apply_weights_raw_fields)
  show "map fst (sectorScores (processExcelData rows w1 ! i)) =
        map fst (sectorScores (processExcelData rows w2 ! i))"
    by (simp add: processExcelData_nth[OF i] processExcelData_nth[OF i2] apply_weights_scores)
  fix k' assume "k' \<noteq> k"
  with assms show "map_of (sectorScores (processExcelData rows w1 ! i)) k' =
                 map_of (sectorScores (processExcelData rows w2 ! i)) k'"
    unfolding processExcelData_nth[OF i] processExcelData_nth[OF i2]
    by (rule apply_weights_other_sector)
qed

theorem rescoring_frame_witness:
  "raw_fields (processExcelData [sample_row ''Chile'' (Num (Fin 0.5)) (Num (Fin 1))]
       defaultSectorWeights ! 0) =
   raw_fields (processExcelData [sample_row ''Chile'' (Num (Fin 0.5)) (Num (Fin 1))]
       (defaultSectorWeights(''ai'' \<mapsto> Fin 0.9)) ! 0)
   \<and> map_of (sectorScores (processExcelData [sample_row ''Chile'' (Num (Fin 0.5)) (Num (Fin 1))]
       defaultSectorWeights ! 0)) ''space'' =
     map_of (sectorScores (processExcelData [sample_row ''Chile'' (Num (Fin 0.5)) (Num (Fin 1))]
       (defaultSectorWeights(''ai'' \<mapsto> Fin 0.9)) ! 0)) ''space''
   \<and> totalScore (processExcelData [sample_row ''Chile'' (Num (Fin 0.5)) (Num (Fin 1))]
       defaultSectorWeights ! 0) \<noteq>
     totalScore (processExcelData [sample_row ''Chile'' (Num (Fin 0.5)) (Num (Fin 1))]
       (defaultSectorWeights(''ai'' \<mapsto> Fin 0.9)) ! 0)"
proof -
  let ?rows = "[sample_row ''Chile'' (Num (Fin 0.5)) (Num (Fin 1))]"
  let ?w2 = "defaultSectorWeights(''ai'' \<mapsto> Fin 0.9)"
  have h: "\<forall>k'. k' \<noteq> ''ai'' \<longrightarrow> defaultSectorWeights k' = ?w2 k'" by simp
  have n: "0 < length (processExcelData ?rows defaultSectorWeights)" by code_simp
  have ne: "''space'' \<noteq> ''ai''" by simp
  note t = rescoring_frame[OF h, of ?rows]
  note p = t[THEN conjunct2, rule_format, OF n]
  have "raw_fields (processExcelData ?rows defaultSectorWeights ! 0) =
        raw_fields (processExcelData ?rows ?w2 ! 0)"
    by (rule p[THEN conjunct1])
  moreover have "map_of (sectorScores (processExcelData ?rows defaultSectorWeights ! 0)) ''space'' =
        map_of (sectorScores (processExcelData ?rows ?w2 ! 0)) ''space''"
    by (rule p[THEN conjunct2, THEN conjunct2, rule_format, OF ne])
  moreover have "totalScore (processExcelData ?rows defaultSectorWeights ! 0) \<noteq>
     totalScore (processExcelData ?rows ?w2 ! 0)"
    by code_simp
  ultimately show ?thesis by (intro conjI)
qed

lemma validated_records_only:
  "\<forall>rec \<in> set (processedData st). \<exists>r c. rec = validated_record r c \<Longrightarrow>
   \<forall>rec \<in> set (processedData (process_row st row i)). \<exists>r c. rec = validated_record r c"
  by (cases rule: process_row_cases[of st row i]) auto

lemma forEach_rows_validated_records:
  "\<forall>rec \<in> set (processedData st). \<exists>r c. rec = validated_record r c \<Longrightarrow>
   \<forall>rec \<in> set (processedData (forEach_rows st i rs)). \<exists>r c. rec = validated_record r c"
proof (induction rs arbitrary: st i)
  case Nil
  then show ?case by simp
next
  case (Cons x rs)
  from validated_records_only[OF Cons.prems, of x i]
  have "\<forall>rec \<in> set (processedData (forEach_rows (process_row st x i) (Suc i) rs)).
      \<exists>r c. rec = validated_record r c"
    by (rule Cons.IH)
  then show ?case by simp
qed

lemma validator_output_records:
  assumes "rec \<in> set (data (validateAndProcessData rows))"
  obtains r c where "rec = validated_record r c"
proof (cases "rows \<noteq> [] \<and> missingColumns rows = []")
  case True
  have "\<forall>rec \<in> set (processedData (forEach_rows init_state 0 rows)). \<exists>r c. rec = validated_record r c"
    by (rule forEach_rows_validated_records) (simp add: init_state_def)
  with True assms that show ?thesis by (auto simp: validate_loop)
next
  case False
  with assms show ?thesis
    by (cases "rows = []") (simp_all add: validate_no_rows validate_missing)
qed

lemma jmul_NaN_right: "jmul x NaN = NaN"
  by (cases x) simp_all

lemma validated_record_fields:
  "sectorScores (validated_record r c) =
     [(''ai'', parseFloat (get (map_columns r) ''ai'')),
      (''quantum'', parseFloat (get (map_columns r) ''quantum'')),
      (''semiconductors'', parseFloat (get (map_columns r) ''semiconductors'')),
      (''biotech'', parseFloat (get (map_columns r) ''biotech'')),
      (''space'', parseFloat (get (map_columns r) ''space'')),
      (''fintech'', parseFloat (get (map_columns r) ''fintech''))]"
  "ai (validated_record r c) = get (map_columns r) ''ai''"
  "quantum (validated_record r c) = get (map_columns r) ''quantum''"
  "semiconductors (validated_record r c) = get (map_columns r) ''semiconductors''"
  "biotech (validated_record r c) = get (map_columns r) ''biotech''"
  "space (validated_record r c) = get (map_columns r) ''space''"
  "fintech (validated_record r c) = get (map_columns r) ''fintech''"
  by (simp_all add: validated_record_def countryData_def sector_value_def
      sector_keys_def Object_keys_def SECTOR_WEIGHTS_def Let_def)


lemma sector_keys_eq:
  "sector_keys = [''ai'', ''quantum'', ''semiconductors'', ''biotech'', ''space'', ''fintech'']"
  by (simp add: sector_keys_def Object_keys_def SECTOR_WEIGHTS_def)

lemma dot_product_unfold:
  "dot_product
     [(''ai'', a), (''quantum'', q), (''semiconductors'', s), (''biotech'', b), (''space'', p),
      (''fintech'', f)] wt =
   jadd (jadd (jadd (jadd (jadd (jadd (Fin 0) (jmul a (wt ''ai''))) (jmul q (wt ''quantum'')))
     (jmul s (wt ''semiconductors''))) (jmul b (wt ''biotech''))) (jmul p (wt ''space'')))
     (jmul f (wt ''fintech''))"
  by (simp add: dot_product_def sector_keys_eq score_of_def toNumber_def)

lemma apply_weights_total:
  "totalScore (apply_weights w c) =
   jadd (jadd (jadd (jadd (jadd (jadd (Fin 0)
     (jmul (parseFloat (ai c)) (toNumber (w ''ai''))))
     (jmul (parseFloat (quantum c)) (toNumber (w ''quantum''))))
     (jmul (parseFloat (semiconductors c)) (toNumber (w ''semiconductors''))))
     (jmul (parseFloat (biotech c)) (toNumber (w ''biotech''))))
     (jmul (parseFloat (space c)) (toNumber (w ''space''))))
     (jmul (parseFloat (fintech c)) (toNumber (w ''fintech'')))"
  by (simp add: apply_weights_def sum_scores_def Let_def)

lemma total_is_dot_product:
  assumes "\<forall>k \<in> set sector_keys. w k = Some (wt k)"
  shows "totalScore (apply_weights w ((validated_record r c)\<lparr>country := n\<rparr>)) =
         dot_product (sectorScores (validated_record r c)) wt"
proof -
  from assms have "w ''ai'' = Some (wt ''ai'')" "w ''quantum'' = Some (wt ''quantum'')"
    "w ''semiconductors'' = Some (wt ''semiconductors'')" "w ''biotech'' = Some (wt ''biotech'')"
    "w ''space'' = Some (wt ''space'')" "w ''fintech'' = Some (wt ''fintech'')"
    by (simp_all add: sector_keys_eq)
  then show ?thesis
    by (simp add: apply_weights_total validated_record_fields dot_product_unfold toNumber_def)
qed

text \<open>
  Claim C1. When the weights supply all six sector keys, every record returned by
  \<open>processExcelData\<close> has a \<open>totalScore\<close> equal to the dot product of the raw sector scores
  that the validator recorded for that record with the weights, the six products being
  added in the order ai, quantum, semiconductors, biotech, space, fintech starting from
  \<open>0\<close>. The two sides are the same number, formed by the same operations in the same order,
  so they agree within any tolerance.
\<close>

theorem totalScore_is_dot_product:
  assumes "\<forall>k \<in> set sector_keys. weights k = Some (wt k)"
  shows "(isValid (validation (validateAndProcessData rows)) \<longrightarrow>
            length (processExcelData rows weights) = length (data (validateAndProcessData rows)))
       \<and> (\<forall>i < length (processExcelData rows weights).
            totalScore (processExcelData rows weights ! i) =
            dot_product (sectorScores (data (validateAndProcessData rows) ! i)) wt)"
proof (intro conjI allI impI)
  assume "isValid (validation (validateAndProcessData rows))"
  then show "length (processExcelData rows weights) = length (data (validateAndProcessData rows))"
    by (simp add: processExcelData_def Let_def standardizeCountryNames_def)
next
  fix i assume i: "i < length (processExcelData rows weights)"
  let ?d = "data (validateAndProcessData rows)"
  from i have v: "isValid (validation (validateAndProcessData rows))"
    by (cases "isValid (validation (validateAndProcessData rows))")
       (simp_all add: processExcelData_def Let_def)
  with i have len: "i < length ?d"
    by (simp add: processExcelData_def Let_def standardizeCountryNames_def)
  then have "?d ! i \<in> set ?d" by simp
  then obtain r c where rc: "?d ! i = validated_record r c"
    by (rule validator_output_records)
  have "processExcelData rows weights ! i =
      apply_weights weights ((?d ! i)\<lparr>country := standardize_name (country (?d ! i))\<rparr>)"
    using len by (simp add: processExcelData_nth[OF i] standardizeCountryNames_def)
  then show "totalScore (processExcelData rows weights ! i) =
            dot_product (sectorScores (?d ! i)) wt"
    by (simp only: rc total_is_dot_product[OF assms])
qed


theorem totalScore_is_dot_product_witness:
  "length (processExcelData [sample_row ''Chile'' (Num (Fin 0.5)) (Num (Fin 1))]
      defaultSectorWeights) = 1
   \<and> totalScore (processExcelData [sample_row ''Chile'' (Num (Fin 0.5)) (Num (Fin 1))]
      defaultSectorWeights ! 0) =
     dot_product
       (sectorScores (data (validateAndProcessData
          [sample_row ''Chile'' (Num (Fin 0.5)) (Num (Fin 1))]) ! 0))
       (\<lambda>k. toNumber (defaultSectorWeights k))
   \<and> dot_product
       (sectorScores (data (validateAndProcessData
          [sample_row ''Chile'' (Num (Fin 0.5)) (Num (Fin 1))]) ! 0))
       (\<lambda>k. toNumber (defaultSectorWeights k)) = Fin 0.8"
proof -
  let ?rows = "[sample_row ''Chile'' (Num (Fin 0.5)) (Num (Fin 1))]"
  let ?wt = "\<lambda>k. toNumber (defaultSectorWeights k)"
  have h: "\<forall>k \<in> set sector_keys. defaultSectorWeights k = Some (?wt k)" by code_simp
  have n: "length (processExcelData ?rows defaultSectorWeights) = 1" by code_simp
  then have i: "0 < length (processExcelData ?rows defaultSectorWeights)" by simp
  note t = totalScore_is_dot_product[OF h, of ?rows]
  have e: "totalScore (processExcelData ?rows defaultSectorWeights ! 0) =
      dot_product (sectorScores (data (validateAndProcessData ?rows) ! 0)) ?wt"
    by (rule t[THEN conjunct2, rule_format, OF i])
  have v: "dot_product (sectorScores (data (validateAndProcessData ?rows) ! 0)) ?wt = Fin 0.8"
    by code_simp
  from n e v show ?thesis by (intro conjI)
qed

section \<open>A weight that is absent\<close>

lemma jadd_NaN_right: "jadd x NaN = NaN"
  by (cases x) simp_all

lemma absent_weight_total:
  assumes "k \<in> set sector_keys" and "w k = None"
  shows "totalScore (apply_weights w c) = NaN"
proof -
  have "\<forall>k \<in> set sector_keys. w k = None \<longrightarrow> totalScore (apply_weights w c) = NaN"
    unfolding sector_keys_eq apply_weights_total
    by (simp add: toNumber_def jmul_NaN_right jadd_NaN_right del: prefix_code)
  with assms show ?thesis by blast
qed

lemma absent_weight_contribution:
  assumes "k \<in> set sector_keys" and "w k = None"
  shows "map_of (sectorScores (apply_weights w c)) k = Some NaN"
proof -
  have "\<forall>k \<in> set sector_keys. w k = None \<longrightarrow>
      map_of (sectorScores (apply_weights w c)) k = Some NaN"
    unfolding sector_keys_eq apply_weights_scores
    by (simp add: toNumber_def jmul_NaN_right)
  with assms show ?thesis by blast
qed

text \<open>
  Claim C2, as the code has it. When the weights lack the sector key \<open>k\<close>, scoring does not
  fail and returns as many records as for the weights extended with \<open>weights[k] = 0\<close>, with
  the same countries, raw cells and contributions of the other sectors; but the
  contribution of \<open>k\<close> is the product with \<open>undefined\<close>, that is \<open>NaN\<close>, and so is the
  \<open>totalScore\<close> of every record.
\<close>

theorem absent_weight_gives_NaN:
  assumes "k \<in> set sector_keys" and "weights k = None"
  shows "length (processExcelData rows weights) =
           length (processExcelData rows (weights(k \<mapsto> Fin 0)))
       \<and> (\<forall>i < length (processExcelData rows weights).
            totalScore (processExcelData rows weights ! i) = NaN
            \<and> map_of (sectorScores (processExcelData rows weights ! i)) k = Some NaN
            \<and> raw_fields (processExcelData rows weights ! i) =
                raw_fields (processExcelData rows (weights(k \<mapsto> Fin 0)) ! i)
            \<and> (\<forall>k'. k' \<noteq> k \<longrightarrow>
                 map_of (sectorScores (processExcelData rows weights ! i)) k' =
                 map_of (sectorScores (processExcelData rows (weights(k \<mapsto> Fin 0)) ! i)) k'))"
proof (intro conjI allI impI)
  show "length (processExcelData rows weights) =
           length (processExcelData rows (weights(k \<mapsto> Fin 0)))"
    by (rule processExcelData_length)
next
  fix i assume i: "i < length (processExcelData rows weights)"
  then have i2: "i < length (processExcelData rows (weights(k \<mapsto> Fin 0)))"
    using processExcelData_length[of rows weights "weights(k \<mapsto> Fin 0)"] by simp
  show "totalScore (processExcelData rows weights ! i) = NaN"
    unfolding processExcelData_nth[OF i] using assms by (rule absent_weight_total)
  show "map_of (sectorScores (processExcelData rows weights ! i)) k = Some NaN"
    unfolding processExcelData_nth[OF i] using assms by (rule absent_weight_contribution)
  show "raw_fields (processExcelData rows weights ! i) =
                raw_fields (processExcelData rows (weights(k \<mapsto> Fin 0)) ! i)"
    by (simp add: processExcelData_nth[OF i] processExcelData_nth[OF i2] apply_weights_raw_fields)
  fix k' assume ne: "k' \<noteq> k"
  have "\<forall>k'. k' \<noteq> k \<longrightarrow> weights k' = (weights(k \<mapsto> Fin 0)) k'" by simp
  then show "map_of (sectorScores (processExcelData rows weights ! i)) k' =
        map_of (sectorScores (processExcelData rows (weights(k \<mapsto> Fin 0)) ! i)) k'"
    unfolding processExcelData_nth[OF i] processExcelData_nth[OF i2]
    using ne by (rule apply_weights_other_sector)
qed

theorem absent_weight_gives_NaN_witness:
  "length (processExcelData [sample_row ''Chile'' (Num (Fin 0.5)) (Num (Fin 1))]
      (defaultSectorWeights(''ai'' := None))) = 1
   \<and> totalScore (processExcelData [sample_row ''Chile'' (Num (Fin 0.5)) (Num (Fin 1))]
      (defaultSectorWeights(''ai'' := None)) ! 0) = NaN
   \<and> map_of (sectorScores (processExcelData [sample_row ''Chile'' (Num (Fin 0.5)) (Num (Fin 1))]
      (defaultSectorWeights(''ai'' := None)) ! 0)) ''ai'' = Some NaN"
proof -
  let ?rows = "[sample_row ''Chile'' (Num (Fin 0.5)) (Num (Fin 1))]"
  let ?w = "defaultSectorWeights(''ai'' := None)"
  have k: "''ai'' \<in> set sector_keys" by code_simp
  have a: "?w ''ai'' = None" by simp
  have n: "length (processExcelData ?rows ?w) = 1" by code_simp
  then have i: "0 < length (processExcelData ?rows ?w)" by simp
  note t = absent_weight_gives_NaN[of "''ai''" ?w ?rows, OF k a]
  note p = t[THEN conjunct2, rule_format, OF i]
  have "totalScore (processExcelData ?rows ?w ! 0) = NaN"
    by (rule p[THEN conjunct1])
  moreover have "map_of (sectorScores (processExcelData ?rows ?w ! 0)) ''ai'' = Some NaN"
    by (rule p[THEN conjunct2, THEN conjunct1])
  ultimately show ?thesis using n by (intro conjI)
qed

text \<open>
  With the \<open>ai\<close> weight absent the scores differ from those for an \<open>ai\<close> weight of \<open>0\<close>: the
  total is \<open>NaN\<close>, not a finite number.
\<close>

theorem absent_weight_counterexample:
  "processExcelData [sample_row ''Chile'' (Num (Fin 0.5)) (Num (Fin 1))]
      (defaultSectorWeights(''ai'' := None)) \<noteq>
   processExcelData [sample_row ''Chile'' (Num (Fin 0.5)) (Num (Fin 1))]
      ((defaultSectorWeights(''ai'' := None))(''ai'' \<mapsto> Fin 0))
   \<and> map totalScore (processExcelData [sample_row ''Chile'' (Num (Fin 0.5)) (Num (Fin 1))]
      (defaultSectorWeights(''ai'' := None))) = [NaN]
   \<and> map totalScore (processExcelData [sample_row ''Chile'' (Num (Fin 0.5)) (Num (Fin 1))]
      ((defaultSectorWeights(''ai'' := None))(''ai'' \<mapsto> Fin 0))) = [Fin 0.7]"
  by code_simp

section \<open>Countries of the final output\<close>
















end
